theory Spec2Isabelle
  imports Main
begin

section \<open>Python values and exceptions\<close>

text \<open>
  The module \<^verbatim>\<open>mlflow/tracing/utils/__init__.py\<close> is embedded function by function.
  Python exceptions are values: a function that may raise returns \<open>py_error + 'a\<close>, with
  \<open>Inl\<close> the raised exception.
\<close>

datatype py_error =
    ImportError
  | TypeError
  | ValueError
  | JSONDecodeError
  | AttributeError
  | RecursionError
  | MlflowTracingException string
  | OtherException string
  | KeyboardInterrupt

text \<open>
  \<^verbatim>\<open>except Exception\<close> catches every class derived from \<^verbatim>\<open>Exception\<close>;
  \<^verbatim>\<open>KeyboardInterrupt\<close> derives from \<^verbatim>\<open>BaseException\<close> only.
\<close>

fun is_Exception :: "py_error \<Rightarrow> bool" where
  "is_Exception KeyboardInterrupt = False"
| "is_Exception _ = True"

datatype py_value =
    PyNone
  | PyBool bool
  | PyInt int
  | PyFloat string
  | PyStr string
  | PyList "py_value list"
  | PyDict "(string \<times> py_value) list"
  | PyType string

section \<open>Span name deduplication\<close>

text \<open>
  A span carries a mutable display name; the other fields are never touched by the
  functions below. The batch is a list of distinct span objects, so the in-place
  update of one span is the update of one list element.
\<close>

record live_span =
  name :: string
  ident :: int

text \<open>\<^verbatim>\<open>str(n)\<close> of a non-negative integer, as the f-string \<^verbatim>\<open>f"{count}"\<close> renders it.\<close>

fun str_nat :: "nat \<Rightarrow> string" where
  "str_nat n =
     (if n < 10 then [''0123456789'' ! n]
      else str_nat (n div 10) @ [''0123456789'' ! (n mod 10)])"

declare str_nat.simps [simp del]

text \<open>\<^verbatim>\<open>Counter(span.name for span in spans)\<close>: a dict from name to number of occurrences.\<close>

definition Counter :: "string list \<Rightarrow> (string \<rightharpoonup> nat)" where
  "Counter xs =
     fold (\<lambda>x m. m(x \<mapsto> (case m x of None \<Rightarrow> 1 | Some c \<Rightarrow> c + 1))) xs Map.empty"

text \<open>\<^verbatim>\<open>{name: 1 for name, count in span_name_counter.items() if count > 1}\<close>\<close>

definition duplicated_names :: "(string \<rightharpoonup> nat) \<Rightarrow> (string \<rightharpoonup> nat)" where
  "duplicated_names counter =
     (\<lambda>n. case counter n of None \<Rightarrow> None | Some c \<Rightarrow> if 1 < c then Some 1 else None)"

text \<open>
  The loop \<^verbatim>\<open>for span in spans\<close>. The walrus test \<^verbatim>\<open>if count := counter.get(span.name)\<close>
  is false for a missing key (\<^verbatim>\<open>None\<close>) and for the count \<open>0\<close>.
\<close>

fun rename_spans :: "(string \<rightharpoonup> nat) \<Rightarrow> live_span list \<Rightarrow> live_span list" where
  "rename_spans counter [] = []"
| "rename_spans counter (span # spans) =
     (case counter (name span) of
        None \<Rightarrow> span # rename_spans counter spans
      | Some count \<Rightarrow>
          if count = 0 then span # rename_spans counter spans
          else span\<lparr>name := name span @ ''_'' @ str_nat count\<rparr>
                 # rename_spans (counter(name span \<mapsto> count + 1)) spans)"

definition deduplicate_span_names_in_place :: "live_span list \<Rightarrow> live_span list" where
  "deduplicate_span_names_in_place spans =
     rename_spans (duplicated_names (Counter (map name spans))) spans"

text \<open>The number of the occurrence at position \<open>i\<close> among the equal names, counted from 1.\<close>

definition occurrence_index :: "live_span list \<Rightarrow> nat \<Rightarrow> nat" where
  "occurrence_index spans i =
     count_list (map name (take (Suc i) spans)) (name (spans ! i))"

section \<open>Identifier codec\<close>

subsection \<open>Encoding\<close>

text \<open>
  The hexadecimal digits of a non-negative integer, most significant first, lower case,
  as the presentation type \<^verbatim>\<open>x\<close> of Python's \<^verbatim>\<open>format\<close> writes them.
\<close>

fun hex_nat :: "nat \<Rightarrow> string" where
  "hex_nat n =
     (if n < 16 then [''0123456789abcdef'' ! n]
      else hex_nat (n div 16) @ [''0123456789abcdef'' ! (n mod 16)])"

declare hex_nat.simps [simp del]

text \<open>
  \<^verbatim>\<open>format(value, "0Nx")\<close> for the width \<open>N\<close>: the digits are padded with zeros on the
  left up to \<open>N\<close> characters and never cut; a negative value has its sign first, which
  counts in the width.
\<close>

definition format_0x :: "nat \<Rightarrow> int \<Rightarrow> string" where
  "format_0x width v =
     (if v < 0
      then CHR ''-'' # replicate (width - 1 - length (hex_nat (nat (- v)))) (CHR ''0'')
             @ hex_nat (nat (- v))
      else replicate (width - length (hex_nat (nat v))) (CHR ''0'') @ hex_nat (nat v))"

text \<open>
  OpenTelemetry's \<^verbatim>\<open>trace_api.format_span_id\<close> and \<^verbatim>\<open>trace_api.format_trace_id\<close> are
  \<^verbatim>\<open>format(span_id, "016x")\<close> and \<^verbatim>\<open>format(trace_id, "032x")\<close>.
\<close>

definition format_span_id :: "int \<Rightarrow> string" where
  "format_span_id span_id = format_0x 16 span_id"

definition format_trace_id :: "int \<Rightarrow> string" where
  "format_trace_id trace_id = format_0x 32 trace_id"

text \<open>
  The two encoders. Their \<^verbatim>\<open>lru_cache(maxsize=1)\<close> stores results of a pure function
  and does not change what is returned.
\<close>

definition encode_span_id :: "int \<Rightarrow> string" where
  "encode_span_id span_id = ''0x'' @ format_span_id span_id"

definition encode_trace_id :: "int \<Rightarrow> string" where
  "encode_trace_id trace_id = ''0x'' @ format_trace_id trace_id"

subsection \<open>Decoding\<close>

text \<open>
  Python's \<^verbatim>\<open>int(s, 16)\<close> on a string of ASCII characters, as CPython's
  \<^verbatim>\<open>PyLong_FromString\<close> reads it. Every failure is a \<^verbatim>\<open>ValueError\<close>.
  The table of digit values gives 37 to a character that is no digit.
\<close>

definition py_isspace :: "char \<Rightarrow> bool" where
  "py_isspace c = (c \<in> set [CHR 0x09, CHR 0x0A, CHR 0x0B, CHR 0x0C, CHR 0x0D, CHR '' ''])"

definition digit_table :: "(char \<times> nat) list" where
  "digit_table =
     zip ''0123456789abcdefghijklmnopqrstuvwxyz'' [0 ..< 36]
     @ zip ''ABCDEFGHIJKLMNOPQRSTUVWXYZ'' [10 ..< 36]"

definition digit_value :: "char \<Rightarrow> nat" where
  "digit_value c = (case map_of digit_table c of Some d \<Rightarrow> d | None \<Rightarrow> 37)"

text \<open>
  The scanning loop over digits and underscores: \<open>prev\<close> is the character read before,
  \<open>acc\<close> the value of the digits read so far. It stops at the first character that is
  neither a digit of the base nor an underscore and returns the rest; two underscores
  in a row and an underscore at the end are refused.
\<close>

fun scan_digits :: "char \<Rightarrow> nat \<Rightarrow> string \<Rightarrow> (nat \<times> string) option" where
  "scan_digits prev acc [] = (if prev = CHR ''_'' then None else Some (acc, []))"
| "scan_digits prev acc (c # cs) =
     (if c = CHR ''_'' then
        (if prev = CHR ''_'' then None else scan_digits c acc cs)
      else if digit_value c < 16 then scan_digits c (acc * 16 + digit_value c) cs
      else if prev = CHR ''_'' then None
      else Some (acc, c # cs))"

text \<open>\<^verbatim>\<open>long_from_string_base\<close>: no underscore in front, and at least one character read.\<close>

definition long_from_string_base :: "string \<Rightarrow> (nat \<times> string) option" where
  "long_from_string_base s =
     (case s of
        [] \<Rightarrow> None
      | c # cs \<Rightarrow>
          if c = CHR ''_'' then None
          else (case scan_digits (CHR 0x00) 0 s of
                  None \<Rightarrow> None
                | Some (v, rest) \<Rightarrow> if rest = s then None else Some (v, rest)))"

definition skip_sign :: "string \<Rightarrow> bool \<times> string" where
  "skip_sign s =
     (case s of
        [] \<Rightarrow> (False, s)
      | c # cs \<Rightarrow>
          if c = CHR ''+'' then (False, cs)
          else if c = CHR ''-'' then (True, cs)
          else (False, s))"

text \<open>The prefix \<^verbatim>\<open>0x\<close> or \<^verbatim>\<open>0X\<close> is skipped, and one underscore after it.\<close>

definition skip_prefix :: "string \<Rightarrow> string" where
  "skip_prefix s =
     (case s of
        c0 # c1 # cs \<Rightarrow>
          if c0 = CHR ''0'' \<and> (c1 = CHR ''x'' \<or> c1 = CHR ''X'')
          then (case cs of [] \<Rightarrow> cs | u # cs' \<Rightarrow> if u = CHR ''_'' then cs' else cs)
          else s
      | _ \<Rightarrow> s)"

definition int_base16 :: "string \<Rightarrow> py_error + int" where
  "int_base16 s =
     (case skip_sign (dropWhile py_isspace s) of
        (negative, s2) \<Rightarrow>
          (case long_from_string_base (skip_prefix s2) of
             None \<Rightarrow> Inl ValueError
           | Some (v, rest) \<Rightarrow>
               if dropWhile py_isspace rest = []
               then Inr (if negative then - int v else int v)
               else Inl ValueError))"

definition decode_id :: "string \<Rightarrow> py_error + int" where
  "decode_id span_or_trace_id = int_base16 span_or_trace_id"

subsection \<open>What the specification calls valid hexadecimal\<close>

text \<open>
  These definitions follow the words of the specification, not the code: a valid
  hexadecimal string is a non-empty run of hexadecimal digits, with or without the
  prefix \<^verbatim>\<open>0x\<close>, and its value is read digit by digit in base 16.
\<close>

definition is_hex_digit :: "char \<Rightarrow> bool" where
  "is_hex_digit c = (c \<in> set ''0123456789abcdefABCDEF'')"

definition is_lower_hex_digit :: "char \<Rightarrow> bool" where
  "is_lower_hex_digit c = (c \<in> set ''0123456789abcdef'')"

definition hex_body :: "string \<Rightarrow> string" where
  "hex_body s = (if take 2 s = ''0x'' then drop 2 s else s)"

definition valid_hex :: "string \<Rightarrow> bool" where
  "valid_hex s = (hex_body s \<noteq> [] \<and> list_all is_hex_digit (hex_body s))"

definition hex_digit_value :: "char \<Rightarrow> nat" where
  "hex_digit_value c =
     (if c \<in> set ''0123456789'' then of_char c - 48
      else if c \<in> set ''abcdef'' then of_char c - 87
      else of_char c - 55)"

definition hex_value :: "string \<Rightarrow> nat" where
  "hex_value ds = foldl (\<lambda>acc c. 16 * acc + hex_digit_value c) 0 ds"

text \<open>
  The strings Python's \<^verbatim>\<open>int(s, 16)\<close> accepts, in words: white space, an optional sign,
  an optional prefix \<^verbatim>\<open>0x\<close> or \<^verbatim>\<open>0X\<close> (with at most one underscore after it), then up
  to the next white space a body of hexadecimal digits in which single underscores may
  stand between two digits, and nothing but white space after the body.
\<close>

fun no_double_underscore :: "string \<Rightarrow> bool" where
  "no_double_underscore (c # d # cs) =
     (\<not> (c = CHR ''_'' \<and> d = CHR ''_'') \<and> no_double_underscore (d # cs))"
| "no_double_underscore _ = True"

definition body_char :: "char \<Rightarrow> bool" where
  "body_char c = (is_hex_digit c \<or> c = CHR ''_'')"

definition digit_groups :: "string \<Rightarrow> bool" where
  "digit_groups b =
     (b \<noteq> [] \<and> list_all body_char b
      \<and> hd b \<noteq> CHR ''_'' \<and> last b \<noteq> CHR ''_'' \<and> no_double_underscore b)"

definition strip_sign :: "string \<Rightarrow> string" where
  "strip_sign s = (if s \<noteq> [] \<and> (hd s = CHR ''+'' \<or> hd s = CHR ''-'') then tl s else s)"

definition strip_prefix :: "string \<Rightarrow> string" where
  "strip_prefix s =
     (if take 2 s = ''0x'' \<or> take 2 s = ''0X''
      then (if take 1 (drop 2 s) = ''_'' then drop 3 s else drop 2 s)
      else s)"

definition python_hex_literal :: "string \<Rightarrow> bool" where
  "python_hex_literal s =
     (let t = strip_prefix (strip_sign (dropWhile py_isspace s))
      in digit_groups (takeWhile (\<lambda>c. \<not> py_isspace c) t)
         \<and> list_all py_isspace (dropWhile (\<lambda>c. \<not> py_isspace c) t))"

definition is_ascii :: "string \<Rightarrow> bool" where
  "is_ascii s = list_all (\<lambda>c. (of_char c :: nat) < 128) s"

section \<open>Attribute decoder\<close>

text \<open>
  An OpenTelemetry span as \<open>get_otel_attribute\<close> sees it: its attribute map, or no such
  attribute at all (a non-recording span), in which case reading it raises
  \<^verbatim>\<open>AttributeError\<close>.
\<close>

record otel_span =
  attributes :: "(string \<rightharpoonup> py_value) option"

text \<open>
  \<^verbatim>\<open>json.loads\<close> belongs to Python's library: the parser of JSON text is the parameter
  \<open>parse\<close>, which returns the decoded value or raises. What \<^verbatim>\<open>json.loads\<close> does before
  parsing is modelled: an argument that is no string (\<^verbatim>\<open>None\<close> for a missing key)
  raises \<^verbatim>\<open>TypeError\<close>.
\<close>

definition json_loads ::
  "(string \<Rightarrow> py_error + py_value) \<Rightarrow> py_value \<Rightarrow> py_error + py_value" where
  "json_loads parse v = (case v of PyStr s \<Rightarrow> parse s | _ \<Rightarrow> Inl TypeError)"

text \<open>\<^verbatim>\<open>attributes.get(key)\<close>: \<^verbatim>\<open>None\<close> for a missing key.\<close>

definition dict_get :: "(string \<rightharpoonup> py_value) \<Rightarrow> string \<Rightarrow> py_value" where
  "dict_get d key = (case d key of None \<Rightarrow> PyNone | Some v \<Rightarrow> v)"

text \<open>
  The body of the \<^verbatim>\<open>try\<close> block, then the handler \<^verbatim>\<open>except Exception\<close>, which writes
  a debug message and lets the function end, so that it returns \<^verbatim>\<open>None\<close>.
\<close>

definition get_otel_attribute ::
  "(string \<Rightarrow> py_error + py_value) \<Rightarrow> otel_span \<Rightarrow> string \<Rightarrow> py_error + py_value" where
  "get_otel_attribute parse span key =
     (case (case attributes span of
              None \<Rightarrow> Inl AttributeError
            | Some attrs \<Rightarrow> json_loads parse (dict_get attrs key)) of
        Inr v \<Rightarrow> Inr v
      | Inl e \<Rightarrow> if is_Exception e then Inr PyNone else Inl e)"

text \<open>
  The constants of Python's JSON scanner. \<^verbatim>\<open>json.loads\<close> skips the white space of JSON
  (blank, tab, line feed, carriage return) on both sides of the value, and a text that
  is one of the constants below is decoded to the value given here: besides the three
  literal names of JSON it accepts \<^verbatim>\<open>NaN\<close>, \<^verbatim>\<open>Infinity\<close> and \<^verbatim>\<open>-Infinity\<close>, which become
  floats. What \<^verbatim>\<open>json.loads\<close> does on every other text stays the parameter \<open>other\<close>.
\<close>

definition json_whitespace :: "char \<Rightarrow> bool" where
  "json_whitespace c = (c \<in> set [CHR '' '', CHR 0x09, CHR 0x0A, CHR 0x0D])"

definition json_constant :: "string \<Rightarrow> py_value option" where
  "json_constant t =
     map_of [(''null'', PyNone), (''true'', PyBool True), (''false'', PyBool False),
             (''NaN'', PyFloat ''nan''), (''Infinity'', PyFloat ''inf''),
             (''-Infinity'', PyFloat ''-inf'')] t"

definition json_loads_text ::
  "(string \<Rightarrow> py_error + py_value) \<Rightarrow> string \<Rightarrow> py_error + py_value" where
  "json_loads_text other s =
     (case json_constant
             (rev (dropWhile json_whitespace (rev (dropWhile json_whitespace s)))) of
        Some v \<Rightarrow> Inr v
      | None \<Rightarrow> other s)"

text \<open>
  From the words of the specification, "syntactically valid JSON": a JSON text is one
  value between optional white space, and a value is an object, an array, a string, a
  number or one of the literal names \<^verbatim>\<open>false\<close>, \<^verbatim>\<open>null\<close>, \<^verbatim>\<open>true\<close>. Every valid
  JSON text therefore starts, after the white space, with one of the characters below;
  a text that does not is not valid JSON.
\<close>

definition json_value_start :: "string \<Rightarrow> bool" where
  "json_value_start s =
     (case dropWhile json_whitespace s of
        [] \<Rightarrow> False
      | c # cs \<Rightarrow> c \<in> set (CHR 0x22 # ''{[-0123456789tfn''))"

section \<open>Request id of the prediction context\<close>

record prediction_context =
  request_id :: "string option"
  is_evaluate :: bool
  dependencies_schemas :: "(string \<times> py_value) list option"

text \<open>
  The ambient context is read, not computed: \<open>pyfunc_importable\<close> says whether
  \<^verbatim>\<open>mlflow.pyfunc.context\<close> can be imported and \<open>ambient\<close> is what
  \<^verbatim>\<open>get_prediction_context()\<close> returns.
\<close>

definition try_get_prediction_context ::
  "bool \<Rightarrow> prediction_context option \<Rightarrow> prediction_context option" where
  "try_get_prediction_context pyfunc_importable ambient =
     (if pyfunc_importable then ambient else None)"

text \<open>Truth value of an optional string: \<^verbatim>\<open>None\<close> and the empty string are false.\<close>

definition truthy :: "string option \<Rightarrow> bool" where
  "truthy v = (case v of None \<Rightarrow> False | Some s \<Rightarrow> s \<noteq> [])"

text \<open>
  The argument \<^verbatim>\<open>is_evaluate\<close> of the function is \<open>evaluate_mode\<close> here, since the
  context has a field of the same name. A context object is always true. The exception
  carries the error code \<^verbatim>\<open>BAD_REQUEST\<close>.
\<close>

definition maybe_get_request_id ::
  "bool \<Rightarrow> prediction_context option \<Rightarrow> bool \<Rightarrow> py_error + string option" where
  "maybe_get_request_id pyfunc_importable ambient evaluate_mode =
     (case try_get_prediction_context pyfunc_importable ambient of
        None \<Rightarrow> Inr None
      | Some context \<Rightarrow>
          if evaluate_mode \<and> \<not> is_evaluate context then Inr None
          else if \<not> truthy (request_id context) \<and> evaluate_mode
          then Inl (MlflowTracingException ''BAD_REQUEST'')
          else Inr (request_id context))"

section \<open>The JSON encoder of trace values\<close>

text \<open>
  What \<^verbatim>\<open>TraceJSONEncoder.default\<close> asks of the interpreter. Each \<^verbatim>\<open>import\<close> succeeds
  or raises (\<^verbatim>\<open>ImportError\<close> when the library is absent), and each comparison of
  versions, \<^verbatim>\<open>Version(langchain.__version__) < Version("0.3.0")\<close> and
  \<^verbatim>\<open>Version(pydantic.VERSION) >= Version("2.0")\<close>, returns a truth value or raises.
  \<open>import_llama_index\<close> stands for the two \<^verbatim>\<open>import\<close> statements of
  \<^verbatim>\<open>_is_safe_to_encode_str\<close>.
\<close>

record py_runtime =
  import_langchain :: "py_error + unit"
  langchain_before_0_3 :: "py_error + bool"
  import_langchain_core_pydantic_v1 :: "py_error + unit"
  import_pydantic :: "py_error + unit"
  pydantic_v2 :: "py_error + bool"
  import_llama_index :: "py_error + unit"

text \<open>
  What it asks of the value: the type tests (\<^verbatim>\<open>isinstance\<close> and \<^verbatim>\<open>is_dataclass\<close>),
  which return a truth value or raise, and the conversions it may call, each of which
  returns a value or raises. \<open>is_streaming_response\<close> is the test against the three
  LlamaIndex streaming classes.
\<close>

record py_object =
  type_name :: string
  is_langchain_model :: "py_error + bool"
  is_pydantic_model :: "py_error + bool"
  dict_method :: "py_error + py_value"
  model_dump_method :: "py_error + py_value"
  is_dataclass :: "py_error + bool"
  asdict :: "py_error + py_value"
  is_streaming_response :: "py_error + bool"
  str_method :: "py_error + string"

text \<open>The conversions called on the value are recorded, in order.\<close>

datatype call = CallDict | CallModelDump | CallAsdict | CallStr

text \<open>
  A rule of the chain returns \<open>Some\<close> result (a value or a raised exception) when it
  decides, and \<open>None\<close> when the chain goes on. \<open>attempt\<close> is one step inside a
  \<^verbatim>\<open>try\<close> block whose handler is \<^verbatim>\<open>except handled: pass\<close>: the handled exception ends
  the block and the chain goes on, any other exception leaves the encoder. \<open>caught\<close> is
  the last step of such a block, \<^verbatim>\<open>return\<close> of a conversion. An \<^verbatim>\<open>ImportError\<close>
  raised anywhere in the first two \<^verbatim>\<open>try\<close> blocks is swallowed, also when a test or the
  export method raises it.
\<close>

definition attempt ::
  "py_error \<Rightarrow> py_error + 'a \<Rightarrow> ('a \<Rightarrow> (py_error + py_value) option \<times> call list)
     \<Rightarrow> (py_error + py_value) option \<times> call list" where
  "attempt handled r continue =
     (case r of
        Inl e \<Rightarrow> (if e = handled then None else Some (Inl e), [])
      | Inr x \<Rightarrow> continue x)"

definition caught :: "py_error \<Rightarrow> py_error + py_value \<Rightarrow> (py_error + py_value) option" where
  "caught handled r =
     (case r of Inl e \<Rightarrow> if e = handled then None else Some (Inl e) | Inr v \<Rightarrow> Some (Inr v))"

definition langchain_rule ::
  "py_runtime \<Rightarrow> py_object \<Rightarrow> (py_error + py_value) option \<times> call list" where
  "langchain_rule env obj =
     attempt ImportError (import_langchain env) (\<lambda>_.
     attempt ImportError (langchain_before_0_3 env) (\<lambda>before.
       if before then
         attempt ImportError (import_langchain_core_pydantic_v1 env) (\<lambda>_.
         attempt ImportError (is_langchain_model obj) (\<lambda>yes.
           if yes then (caught ImportError (dict_method obj), [CallDict])
           else (None, [])))
       else (None, [])))"

definition pydantic_rule ::
  "py_runtime \<Rightarrow> py_object \<Rightarrow> (py_error + py_value) option \<times> call list" where
  "pydantic_rule env obj =
     attempt ImportError (import_pydantic env) (\<lambda>_.
     attempt ImportError (is_pydantic_model obj) (\<lambda>yes.
       if yes then
         attempt ImportError (pydantic_v2 env) (\<lambda>v2.
           if v2 then (caught ImportError (model_dump_method obj), [CallModelDump])
           else (caught ImportError (dict_method obj), [CallDict]))
       else (None, [])))"

text \<open>\<^verbatim>\<open>is_dataclass(obj)\<close> stands outside every \<^verbatim>\<open>try\<close>: what it raises leaves the encoder.\<close>

definition dataclass_rule :: "py_object \<Rightarrow> (py_error + py_value) option \<times> call list" where
  "dataclass_rule obj =
     (case is_dataclass obj of
        Inl e \<Rightarrow> (Some (Inl e), [])
      | Inr yes \<Rightarrow>
          if yes then (caught TypeError (asdict obj), [CallAsdict]) else (None, []))"

text \<open>
  \<^verbatim>\<open>_is_safe_to_encode_str\<close>: an \<^verbatim>\<open>ImportError\<close> of the imports or of the test gives
  \<^verbatim>\<open>True\<close>, any other exception is raised.
\<close>

definition is_safe_to_encode_str :: "py_runtime \<Rightarrow> py_object \<Rightarrow> py_error + bool" where
  "is_safe_to_encode_str env obj =
     (case import_llama_index env of
        Inl e \<Rightarrow> if e = ImportError then Inr True else Inl e
      | Inr _ \<Rightarrow>
          (case is_streaming_response obj of
             Inl e \<Rightarrow> if e = ImportError then Inr True else Inl e
           | Inr yes \<Rightarrow> Inr (\<not> yes)))"

text \<open>\<^verbatim>\<open>json.JSONEncoder.default\<close> raises \<^verbatim>\<open>TypeError\<close> for every object.\<close>

definition JSONEncoder_default :: "py_object \<Rightarrow> py_error + py_value" where
  "JSONEncoder_default obj = Inl TypeError"

definition str_rule :: "py_object \<Rightarrow> (py_error + py_value) \<times> call list" where
  "str_rule obj =
     (case JSONEncoder_default obj of
        Inr v \<Rightarrow> (Inr v, [])
      | Inl e \<Rightarrow>
          if e = TypeError
          then (case str_method obj of
                  Inl e' \<Rightarrow> (Inl e', [CallStr])
                | Inr s \<Rightarrow> (Inr (PyStr s), [CallStr]))
          else (Inl e, []))"

text \<open>
  \<^verbatim>\<open>TraceJSONEncoder.default\<close>. For a value that is not safe to turn into a string it
  returns \<^verbatim>\<open>type(obj)\<close>, the class object, which is \<open>PyType\<close> of the name of the type.
\<close>

definition TraceJSONEncoder_default ::
  "py_runtime \<Rightarrow> py_object \<Rightarrow> (py_error + py_value) \<times> call list" where
  "TraceJSONEncoder_default env obj =
     (case langchain_rule env obj of
        (Some r, c1) \<Rightarrow> (r, c1)
      | (None, c1) \<Rightarrow>
          (case pydantic_rule env obj of
             (Some r, c2) \<Rightarrow> (r, c1 @ c2)
           | (None, c2) \<Rightarrow>
               (case dataclass_rule obj of
                  (Some r, c3) \<Rightarrow> (r, c1 @ c2 @ c3)
                | (None, c3) \<Rightarrow>
                    (case is_safe_to_encode_str env obj of
                       Inl e \<Rightarrow> (Inl e, c1 @ c2 @ c3)
                     | Inr safe \<Rightarrow>
                         if \<not> safe
                         then (Inr (PyType (type_name obj)), c1 @ c2 @ c3)
                         else (case str_rule obj of
                                 (r, c4) \<Rightarrow> (r, c1 @ c2 @ c3 @ c4))))))"

text \<open>No rule before the safety gate decides: the chain reaches rule 4.\<close>

definition unclassified :: "py_runtime \<Rightarrow> py_object \<Rightarrow> bool" where
  "unclassified env obj =
     (fst (langchain_rule env obj) = None \<and> fst (pydantic_rule env obj) = None
      \<and> fst (dataclass_rule obj) = None)"




section \<open>Deduplication: proofs\<close>

lemma Counter_fold_count:
  "fold (\<lambda>x m. m(x \<mapsto> (case m x of None \<Rightarrow> 1 | Some c \<Rightarrow> c + 1))) xs m0 n =
     (if n \<in> set xs
      then Some (count_list xs n + (case m0 n of None \<Rightarrow> 0 | Some c \<Rightarrow> c))
      else m0 n)"
  by (induction xs arbitrary: m0) (auto split: option.splits)

lemma Counter_count:
  "Counter xs n = (if n \<in> set xs then Some (count_list xs n) else None)"
  by (simp add: Counter_def Counter_fold_count)

lemma duplicated_names_Counter:
  "duplicated_names (Counter xs) n = (if 1 < count_list xs n then Some 1 else None)"
  by (auto simp add: duplicated_names_def Counter_count count_list_0_iff)

lemma length_rename_spans [simp]: "length (rename_spans counter spans) = length spans"
  by (induction spans arbitrary: counter) (auto split: option.splits)

lemma rename_spans_nth:
  assumes "i < length spans"
  shows "rename_spans counter spans ! i =
     (case counter (name (spans ! i)) of
        None \<Rightarrow> spans ! i
      | Some c \<Rightarrow>
          if c = 0 then spans ! i
          else (spans ! i)\<lparr>name := name (spans ! i) @ ''_'' @
                 str_nat (c + count_list (map name (take i spans)) (name (spans ! i)))\<rparr>)"
  using assms
proof (induction spans arbitrary: counter i)
  case Nil
  then show ?case by simp
next
  case (Cons s spans)
  show ?case
  proof (cases i)
    case 0
    then show ?thesis by (simp split: option.splits)
  next
    case (Suc j)
    with Cons.prems have j: "j < length spans" by simp
    show ?thesis
      using Cons.IH [OF j] Suc
      by (auto split: option.splits)
  qed
qed

lemma deduplicate_nth:
  assumes "i < length spans"
  shows "deduplicate_span_names_in_place spans ! i =
     (if 1 < count_list (map name spans) (name (spans ! i))
      then (spans ! i)\<lparr>name := name (spans ! i) @ ''_'' @ str_nat (occurrence_index spans i)\<rparr>
      else spans ! i)"
  using assms
  by (simp add: deduplicate_span_names_in_place_def rename_spans_nth
      duplicated_names_Counter occurrence_index_def take_Suc_conv_app_nth)

lemma length_deduplicate:
  "length (deduplicate_span_names_in_place spans) = length spans"
  by (simp add: deduplicate_span_names_in_place_def)

lemma count_list_distinct_le_1:
  "distinct xs \<Longrightarrow> count_list xs x \<le> 1"
  by (induction xs) auto

lemma deduplicate_distinct_names:
  assumes "distinct (map name spans)"
  shows "deduplicate_span_names_in_place spans = spans"
proof (rule nth_equalityI)
  show "length (deduplicate_span_names_in_place spans) = length spans"
    by (rule length_deduplicate)
next
  fix i
  assume "i < length (deduplicate_span_names_in_place spans)"
  then have i: "i < length spans"
    by (simp add: length_deduplicate)
  have "count_list (map name spans) (name (spans ! i)) \<le> 1"
    using assms by (rule count_list_distinct_le_1)
  then show "deduplicate_span_names_in_place spans ! i = spans ! i"
    using deduplicate_nth [OF i] by simp
qed

text \<open>
  C4. For every batch and every name that occurs more than once in it, the \<open>k\<close>-th
  occurrence (in sequence order, counted from 1, the first occurrence included) is
  renamed to \<^verbatim>\<open>{name}_{k}\<close>, the span being otherwise unchanged; the batch keeps its
  length; \<^verbatim>\<open>["red","red"]\<close> becomes \<^verbatim>\<open>["red_1","red_2"]\<close>,
  \<^verbatim>\<open>["red","red","blue"]\<close> becomes \<^verbatim>\<open>["red_1","red_2","blue"]\<close>; a batch without
  duplicate names is unchanged; the empty batch is returned as it is.
\<close>

theorem deduplicate_kth_occurrence:
  "length (deduplicate_span_names_in_place spans) = length spans
   \<and> (\<forall>i < length spans.
          1 < count_list (map name spans) (name (spans ! i)) \<longrightarrow>
          deduplicate_span_names_in_place spans ! i =
            (spans ! i)\<lparr>name := name (spans ! i) @ ''_'' @ str_nat (occurrence_index spans i)\<rparr>)
   \<and> (distinct (map name spans) \<longrightarrow> deduplicate_span_names_in_place spans = spans)
   \<and> map name (deduplicate_span_names_in_place
        [\<lparr>name = ''red'', ident = a\<rparr>, \<lparr>name = ''red'', ident = b\<rparr>])
        = [''red_1'', ''red_2'']
   \<and> map name (deduplicate_span_names_in_place
        [\<lparr>name = ''red'', ident = a\<rparr>, \<lparr>name = ''red'', ident = b\<rparr>,
         \<lparr>name = ''blue'', ident = c\<rparr>])
        = [''red_1'', ''red_2'', ''blue'']
   \<and> deduplicate_span_names_in_place [] = []"
proof (intro conjI allI impI)
  show "length (deduplicate_span_names_in_place spans) = length spans"
    by (rule length_deduplicate)
next
  fix i
  assume "i < length spans"
    and "1 < count_list (map name spans) (name (spans ! i))"
  then show "deduplicate_span_names_in_place spans ! i =
      (spans ! i)\<lparr>name := name (spans ! i) @ ''_'' @ str_nat (occurrence_index spans i)\<rparr>"
    by (simp add: deduplicate_nth)
next
  assume "distinct (map name spans)"
  then show "deduplicate_span_names_in_place spans = spans"
    by (rule deduplicate_distinct_names)
next
  show "map name (deduplicate_span_names_in_place
        [\<lparr>name = ''red'', ident = a\<rparr>, \<lparr>name = ''red'', ident = b\<rparr>])
        = [''red_1'', ''red_2'']"
    by (simp add: deduplicate_span_names_in_place_def duplicated_names_def Counter_def
        str_nat.simps)
next
  show "map name (deduplicate_span_names_in_place
        [\<lparr>name = ''red'', ident = a\<rparr>, \<lparr>name = ''red'', ident = b\<rparr>,
         \<lparr>name = ''blue'', ident = c\<rparr>])
        = [''red_1'', ''red_2'', ''blue'']"
    by (simp add: deduplicate_span_names_in_place_def duplicated_names_def Counter_def
        str_nat.simps)
next
  show "deduplicate_span_names_in_place [] = []"
    by (simp add: deduplicate_span_names_in_place_def)
qed

theorem deduplicate_kth_occurrence_witness:
  "(2::nat) < length [\<lparr>name = ''a'', ident = 7\<rparr>, \<lparr>name = ''b'', ident = 8\<rparr>,
       \<lparr>name = ''a'', ident = 9\<rparr>]
   \<and> 1 < count_list (map name [\<lparr>name = ''a'', ident = 7\<rparr>, \<lparr>name = ''b'', ident = 8\<rparr>,
       \<lparr>name = ''a'', ident = 9\<rparr>]) ''a''
   \<and> deduplicate_span_names_in_place
       [\<lparr>name = ''a'', ident = 7\<rparr>, \<lparr>name = ''b'', ident = 8\<rparr>,
        \<lparr>name = ''a'', ident = 9\<rparr>] ! 2 = \<lparr>name = ''a_2'', ident = 9\<rparr>
   \<and> distinct (map name [\<lparr>name = ''a'', ident = 1\<rparr>, \<lparr>name = ''b'', ident = 2\<rparr>,
       \<lparr>name = ''c'', ident = 3\<rparr>])
   \<and> deduplicate_span_names_in_place
       [\<lparr>name = ''a'', ident = 1\<rparr>, \<lparr>name = ''b'', ident = 2\<rparr>,
        \<lparr>name = ''c'', ident = 3\<rparr>]
       = [\<lparr>name = ''a'', ident = 1\<rparr>, \<lparr>name = ''b'', ident = 2\<rparr>,
          \<lparr>name = ''c'', ident = 3\<rparr>]"
proof -
  let ?xs = "[\<lparr>name = ''a'', ident = 7\<rparr>, \<lparr>name = ''b'', ident = 8\<rparr>,
       \<lparr>name = ''a'', ident = 9\<rparr>]"
  let ?ys = "[\<lparr>name = ''a'', ident = 1\<rparr>, \<lparr>name = ''b'', ident = 2\<rparr>,
       \<lparr>name = ''c'', ident = 3\<rparr>]"
  have len: "(2::nat) < length ?xs" by simp
  have dup: "1 < count_list (map name ?xs) (name (?xs ! 2))" by simp
  have occ: "occurrence_index ?xs 2 = 2"
    by (simp add: occurrence_index_def numeral_2_eq_2)
  have dist: "distinct (map name ?ys)" by simp
  from deduplicate_kth_occurrence [of ?xs] len dup
  have "deduplicate_span_names_in_place ?xs ! 2 =
      (?xs ! 2)\<lparr>name := name (?xs ! 2) @ ''_'' @ str_nat (occurrence_index ?xs 2)\<rparr>"
    by blast
  then have r: "deduplicate_span_names_in_place ?xs ! 2 = \<lparr>name = ''a_2'', ident = 9\<rparr>"
    by (simp add: occ str_nat.simps)
  from deduplicate_kth_occurrence [of ?ys] dist
  have u: "deduplicate_span_names_in_place ?ys = ?ys"
    by blast
  from len dup r dist u show ?thesis by simp
qed

text \<open>
  C1. After deduplication every span of the batch has a unique name, and a span whose
  name occurred once keeps it. The code misses the case of a generated name that is
  already the name of another span: on the names \<^verbatim>\<open>["red","red","red_1"]\<close> it returns
  \<^verbatim>\<open>["red_1","red_2","red_1"]\<close>, where the name \<^verbatim>\<open>red_1\<close> occurs twice although it
  occurred once before.
\<close>

theorem deduplicate_generated_name_collides:
  "map name (deduplicate_span_names_in_place
      [\<lparr>name = ''red'', ident = 1\<rparr>, \<lparr>name = ''red'', ident = 2\<rparr>,
       \<lparr>name = ''red_1'', ident = 3\<rparr>])
     = [''red_1'', ''red_2'', ''red_1'']
   \<and> distinct (map ident
      [\<lparr>name = ''red'', ident = 1\<rparr>, \<lparr>name = ''red'', ident = 2\<rparr>,
       \<lparr>name = ''red_1'', ident = 3\<rparr>])
   \<and> \<not> distinct (map name (deduplicate_span_names_in_place
      [\<lparr>name = ''red'', ident = 1\<rparr>, \<lparr>name = ''red'', ident = 2\<rparr>,
       \<lparr>name = ''red_1'', ident = 3\<rparr>]))"
  by (simp add: deduplicate_span_names_in_place_def duplicated_names_def Counter_def
      str_nat.simps)

section \<open>Identifier codec: proofs\<close>

lemma digit_table_eq: "digit_table = [(CHR ''0'', 0), (CHR ''1'', 1), (CHR ''2'', 2), (CHR ''3'', 3), (CHR ''4'', 4), (CHR ''5'', 5), (CHR ''6'', 6), (CHR ''7'', 7),
  (CHR ''8'', 8), (CHR ''9'', 9), (CHR ''a'', 10), (CHR ''b'', 11), (CHR ''c'', 12), (CHR ''d'', 13), (CHR ''e'', 14), (CHR ''f'', 15),
  (CHR ''g'', 16), (CHR ''h'', 17), (CHR ''i'', 18), (CHR ''j'', 19), (CHR ''k'', 20), (CHR ''l'', 21), (CHR ''m'', 22), (CHR ''n'', 23),
  (CHR ''o'', 24), (CHR ''p'', 25), (CHR ''q'', 26), (CHR ''r'', 27), (CHR ''s'', 28), (CHR ''t'', 29), (CHR ''u'', 30), (CHR ''v'', 31),
  (CHR ''w'', 32), (CHR ''x'', 33), (CHR ''y'', 34), (CHR ''z'', 35),
  (CHR ''A'', 10), (CHR ''B'', 11), (CHR ''C'', 12), (CHR ''D'', 13), (CHR ''E'', 14), (CHR ''F'', 15),
  (CHR ''G'', 16), (CHR ''H'', 17), (CHR ''I'', 18), (CHR ''J'', 19), (CHR ''K'', 20), (CHR ''L'', 21), (CHR ''M'', 22), (CHR ''N'', 23),
  (CHR ''O'', 24), (CHR ''P'', 25), (CHR ''Q'', 26), (CHR ''R'', 27), (CHR ''S'', 28), (CHR ''T'', 29), (CHR ''U'', 30), (CHR ''V'', 31),
  (CHR ''W'', 32), (CHR ''X'', 33), (CHR ''Y'', 34), (CHR ''Z'', 35)]"
  by (simp add: digit_table_def upt_rec)


lemma hex_digit_cases:
  "is_hex_digit c \<Longrightarrow> c = CHR ''0'' \<or> c = CHR ''1'' \<or> c = CHR ''2'' \<or> c = CHR ''3''
    \<or> c = CHR ''4'' \<or> c = CHR ''5'' \<or> c = CHR ''6'' \<or> c = CHR ''7'' \<or> c = CHR ''8''
    \<or> c = CHR ''9'' \<or> c = CHR ''a'' \<or> c = CHR ''b'' \<or> c = CHR ''c'' \<or> c = CHR ''d''
    \<or> c = CHR ''e'' \<or> c = CHR ''f'' \<or> c = CHR ''A'' \<or> c = CHR ''B'' \<or> c = CHR ''C''
    \<or> c = CHR ''D'' \<or> c = CHR ''E'' \<or> c = CHR ''F''"
  by (simp add: is_hex_digit_def)

lemma digit_value_hex_digit:
  assumes "is_hex_digit c"
  shows "digit_value c < 16 \<and> hex_digit_value c = digit_value c"
  using hex_digit_cases [OF assms]
  by (elim disjE) (simp_all add: digit_value_def digit_table_eq hex_digit_value_def)

lemma hex_digit_not_special:
  assumes "is_hex_digit c"
  shows "c \<noteq> CHR ''_'' \<and> c \<noteq> CHR ''x'' \<and> c \<noteq> CHR ''X'' \<and> c \<noteq> CHR ''+'' \<and> c \<noteq> CHR ''-''
     \<and> \<not> py_isspace c"
  using hex_digit_cases [OF assms]
  by (elim disjE) (simp_all add: py_isspace_def)

lemma not_hex_digit_value:
  assumes "\<not> is_hex_digit c"
  shows "\<not> digit_value c < 16"
proof -
  from assms have "c \<noteq> CHR ''0''" "c \<noteq> CHR ''1''" "c \<noteq> CHR ''2''" "c \<noteq> CHR ''3''"
    "c \<noteq> CHR ''4''" "c \<noteq> CHR ''5''" "c \<noteq> CHR ''6''" "c \<noteq> CHR ''7''" "c \<noteq> CHR ''8''"
    "c \<noteq> CHR ''9''" "c \<noteq> CHR ''a''" "c \<noteq> CHR ''b''" "c \<noteq> CHR ''c''" "c \<noteq> CHR ''d''"
    "c \<noteq> CHR ''e''" "c \<noteq> CHR ''f''" "c \<noteq> CHR ''A''" "c \<noteq> CHR ''B''" "c \<noteq> CHR ''C''"
    "c \<noteq> CHR ''D''" "c \<noteq> CHR ''E''" "c \<noteq> CHR ''F''"
    by (simp_all add: is_hex_digit_def)
  then show ?thesis
    by (simp add: digit_value_def digit_table_eq)
qed

lemma digit_value_less_16_iff: "digit_value c < 16 \<longleftrightarrow> is_hex_digit c"
  using digit_value_hex_digit not_hex_digit_value by blast

lemma underscore_digit_value: "\<not> digit_value (CHR ''_'') < 16"
  by (simp add: digit_value_def digit_table_eq)

lemma less_16_cases:
  "(d::nat) < 16 \<Longrightarrow> d = 0 \<or> d = 1 \<or> d = 2 \<or> d = 3 \<or> d = 4 \<or> d = 5 \<or> d = 6 \<or> d = 7
     \<or> d = 8 \<or> d = 9 \<or> d = 10 \<or> d = 11 \<or> d = 12 \<or> d = 13 \<or> d = 14 \<or> d = 15"
  by arith

lemma hexchar_lower:
  assumes "d < 16"
  shows "is_lower_hex_digit (''0123456789abcdef'' ! d)
     \<and> hex_digit_value (''0123456789abcdef'' ! d) = d"
  using less_16_cases [OF assms]
  by (elim disjE) (simp_all add: is_lower_hex_digit_def hex_digit_value_def)

lemma lower_hex_is_hex: "is_lower_hex_digit c \<Longrightarrow> is_hex_digit c"
  by (auto simp add: is_lower_hex_digit_def is_hex_digit_def)

text \<open>The digits written by the encoder.\<close>

lemma hex_nat_not_Nil: "hex_nat n \<noteq> []"
  by (subst hex_nat.simps) simp

lemma hex_nat_lower: "list_all is_lower_hex_digit (hex_nat n)"
proof (induction n rule: hex_nat.induct)
  case (1 n)
  show ?case
  proof (cases "n < 16")
    case True
    then show ?thesis
      by (subst hex_nat.simps) (simp add: hexchar_lower)
  next
    case False
    have "n mod 16 < 16" by simp
    then have "is_lower_hex_digit (''0123456789abcdef'' ! (n mod 16))"
      by (simp only: hexchar_lower)
    with False 1 show ?thesis
      by (subst hex_nat.simps) simp
  qed
qed

lemma hex_value_snoc:
  "hex_value (ds @ [c]) = 16 * hex_value ds + hex_digit_value c"
  by (simp add: hex_value_def)

lemma hex_value_hex_nat: "hex_value (hex_nat n) = n"
proof (induction n rule: hex_nat.induct)
  case (1 n)
  show ?case
  proof (cases "n < 16")
    case True
    then show ?thesis
      by (subst hex_nat.simps) (simp add: hex_value_def hexchar_lower)
  next
    case False
    have "n mod 16 < 16" by simp
    then have "hex_digit_value (''0123456789abcdef'' ! (n mod 16)) = n mod 16"
      by (simp only: hexchar_lower)
    with False 1 show ?thesis
      by (subst hex_nat.simps) (simp add: hex_value_snoc)
  qed
qed

lemma hex_digit_value_zero: "hex_digit_value (CHR ''0'') = 0"
  by (simp add: hex_digit_value_def)

lemma hex_value_zeros: "hex_value (replicate k (CHR ''0'') @ ds) = hex_value ds"
  by (induction k) (simp_all add: hex_value_def hex_digit_value_zero)

lemma length_hex_nat:
  "n < 16 ^ k \<Longrightarrow> 0 < k \<Longrightarrow> length (hex_nat n) \<le> k"
proof (induction n arbitrary: k rule: hex_nat.induct)
  case (1 n)
  show ?case
  proof (cases "n < 16")
    case True
    with 1 show ?thesis
      by (subst hex_nat.simps) simp
  next
    case False
    from 1 False obtain j where k: "k = Suc j"
      by (cases k) auto
    with 1 False have j: "0 < j"
      by (cases j) auto
    from 1 k have "n div 16 < 16 ^ j"
      by (simp add: less_mult_imp_div_less)
    with False j have "length (hex_nat (n div 16)) \<le> j"
      by (intro "1.IH") simp_all
    with False k show ?thesis
      by (subst hex_nat.simps) simp
  qed
qed

text \<open>The decoder on plain hexadecimal strings.\<close>

lemma scan_digits_hex:
  assumes "list_all is_hex_digit ds" and "ds \<noteq> []"
  shows "scan_digits prev acc ds =
     Some (foldl (\<lambda>a c. 16 * a + hex_digit_value c) acc ds, [])"
  using assms
proof (induction ds arbitrary: prev acc)
  case Nil
  then show ?case by simp
next
  case (Cons c cs)
  then have c: "is_hex_digit c" and cs: "list_all is_hex_digit cs"
    by simp_all
  from c have u: "c \<noteq> CHR ''_''" and d: "digit_value c < 16"
    and v: "hex_digit_value c = digit_value c"
    by (simp_all add: hex_digit_not_special digit_value_hex_digit)
  show ?case
  proof (cases cs)
    case Nil
    with u d v show ?thesis by (simp add: mult.commute)
  next
    case (Cons e es)
    then have "cs \<noteq> []" by simp
    from Cons.IH [OF cs this] u d v show ?thesis
      by (simp add: mult.commute)
  qed
qed

lemma long_from_string_base_hex:
  assumes "list_all is_hex_digit ds" and "ds \<noteq> []"
  shows "long_from_string_base ds = Some (hex_value ds, [])"
proof -
  from assms obtain c cs where ds: "ds = c # cs"
    by (cases ds) auto
  with assms have "c \<noteq> CHR ''_''"
    by (simp add: hex_digit_not_special)
  with ds show ?thesis
    using scan_digits_hex [OF assms, of "CHR 0x00" 0]
    by (simp add: long_from_string_base_def hex_value_def del: scan_digits.simps)
qed

lemma int_base16_digits:
  assumes "list_all is_hex_digit ds" and "ds \<noteq> []"
  shows "int_base16 ds = Inr (int (hex_value ds))"
proof -
  from assms obtain c cs where ds: "ds = c # cs"
    by (cases ds) auto
  with assms have c: "is_hex_digit c" and cs: "list_all is_hex_digit cs"
    by simp_all
  from c have sp: "dropWhile py_isspace ds = ds"
    by (simp add: ds hex_digit_not_special)
  from c have sg: "skip_sign ds = (False, ds)"
    by (simp add: ds skip_sign_def hex_digit_not_special)
  have pre: "skip_prefix ds = ds"
  proof (cases cs)
    case Nil
    then show ?thesis by (simp add: ds skip_prefix_def)
  next
    case (Cons e es)
    with cs have "is_hex_digit e" by simp
    then have "e \<noteq> CHR ''x''" "e \<noteq> CHR ''X''"
      by (simp_all add: hex_digit_not_special)
    with Cons show ?thesis by (simp add: ds skip_prefix_def)
  qed
  show ?thesis
    by (simp add: int_base16_def sp sg pre long_from_string_base_hex [OF assms])
qed

lemma int_base16_prefixed:
  assumes "list_all is_hex_digit ds" and "ds \<noteq> []"
  shows "int_base16 (CHR ''0'' # CHR ''x'' # ds) = Inr (int (hex_value ds))"
proof -
  from assms obtain c cs where ds: "ds = c # cs"
    by (cases ds) auto
  with assms have "c \<noteq> CHR ''_''"
    by (simp add: hex_digit_not_special)
  then have pre: "skip_prefix (CHR ''0'' # CHR ''x'' # ds) = ds"
    by (simp add: ds skip_prefix_def)
  have sp: "dropWhile py_isspace (CHR ''0'' # CHR ''x'' # ds) = CHR ''0'' # CHR ''x'' # ds"
    by (simp add: py_isspace_def)
  have sg: "skip_sign (CHR ''0'' # CHR ''x'' # ds) = (False, CHR ''0'' # CHR ''x'' # ds)"
    by (simp add: skip_sign_def)
  show ?thesis
    unfolding int_base16_def sp sg
    by (simp add: pre long_from_string_base_hex [OF assms])
qed

lemma decode_valid_hex:
  assumes "valid_hex s"
  shows "decode_id s = Inr (int (hex_value (hex_body s)))"
proof (cases "take 2 s = ''0x''")
  case True
  then have "s = CHR ''0'' # CHR ''x'' # drop 2 s"
    by (metis append_take_drop_id append_Cons append_Nil)
  moreover from assms True have "list_all is_hex_digit (drop 2 s)" "drop 2 s \<noteq> []"
    by (simp_all add: valid_hex_def hex_body_def)
  ultimately show ?thesis
    using True int_base16_prefixed [of "drop 2 s"]
    by (simp add: decode_id_def hex_body_def)
next
  case False
  with assms show ?thesis
    by (simp add: decode_id_def valid_hex_def hex_body_def int_base16_digits)
qed

lemma format_0x_nonneg:
  assumes "0 \<le> v"
  shows "format_0x w v = replicate (w - length (hex_nat (nat v))) (CHR ''0'') @ hex_nat (nat v)"
  using assms by (simp add: format_0x_def)

lemma format_0x_digits:
  assumes "0 \<le> v"
  shows "list_all is_lower_hex_digit (format_0x w v) \<and> format_0x w v \<noteq> []
     \<and> int (hex_value (format_0x w v)) = v"
proof -
  have z: "is_lower_hex_digit (CHR ''0'')"
    by (simp add: is_lower_hex_digit_def)
  have "list_all is_lower_hex_digit (replicate k (CHR ''0''))" for k
    using z by (induction k) simp_all
  with assms show ?thesis
    by (simp add: format_0x_nonneg hex_nat_lower hex_nat_not_Nil hex_value_zeros
        hex_value_hex_nat)
qed

lemma format_0x_length:
  assumes "0 \<le> v" and "v < 16 ^ w" and "0 < w"
  shows "length (format_0x w v) = w"
proof -
  from assms have "nat v < 16 ^ w"
    by (simp add: nat_less_iff)
  from length_hex_nat [OF this assms(3)] assms(1) show ?thesis
    by (simp add: format_0x_nonneg)
qed

lemma decode_encoded:
  assumes "0 \<le> v"
  shows "decode_id (''0x'' @ format_0x w v) = Inr v"
proof -
  from format_0x_digits [OF assms, of w]
  have "list_all is_hex_digit (format_0x w v)" and "format_0x w v \<noteq> []"
    and "int (hex_value (format_0x w v)) = v"
    by (auto simp add: list_all_iff lower_hex_is_hex)
  then show ?thesis
    by (simp add: decode_id_def int_base16_prefixed)
qed

lemma pow_2_64: "(2::int) ^ 64 = 16 ^ 16" by simp
lemma pow_2_128: "(2::int) ^ 128 = 16 ^ 32" by simp

text \<open>
  C2. For every non-negative 64-bit integer \<open>x\<close>, decoding the encoded span id gives
  back \<open>x\<close>; for every non-negative 128-bit integer \<open>y\<close>, decoding the encoded trace id
  gives back \<open>y\<close>.
\<close>

theorem decode_encode_round_trip:
  "(0 \<le> x \<and> x < 2 ^ 64 \<longrightarrow> decode_id (encode_span_id x) = Inr x)
   \<and> (0 \<le> y \<and> y < 2 ^ 128 \<longrightarrow> decode_id (encode_trace_id y) = Inr y)"
  by (simp add: encode_span_id_def encode_trace_id_def format_span_id_def format_trace_id_def
      decode_encoded del: append.simps)

theorem decode_encode_round_trip_witness:
  "(0::int) \<le> 255 \<and> (255::int) < 2 ^ 64
   \<and> encode_span_id 255 = ''0x00000000000000ff''
   \<and> decode_id (encode_span_id 255) = Inr 255
   \<and> (0::int) \<le> 2 ^ 127 \<and> (2::int) ^ 127 < 2 ^ 128
   \<and> decode_id (encode_trace_id (2 ^ 127)) = Inr (2 ^ 127)"
proof -
  have a: "(0::int) \<le> 255 \<and> (255::int) < 2 ^ 64" by simp
  have b: "(0::int) \<le> 2 ^ 127 \<and> (2::int) ^ 127 < 2 ^ 128" by simp
  have r: "replicate 14 (CHR ''0'') = ''00000000000000''"
    by (simp add: eval_nat_numeral)
  have e: "encode_span_id 255 = ''0x00000000000000ff''"
    by (simp add: encode_span_id_def format_span_id_def format_0x_def hex_nat.simps r)
  from decode_encode_round_trip [of 255 "2 ^ 127"] a b
  have "decode_id (encode_span_id 255) = Inr 255"
    and "decode_id (encode_trace_id (2 ^ 127)) = Inr (2 ^ 127)"
    by blast+
  with a b e show ?thesis by blast
qed

text \<open>
  C3. For every non-negative 64-bit integer, \<open>encode_span_id\<close> is the string \<^verbatim>\<open>0x\<close>
  followed by exactly 16 lower-case hexadecimal digits, padded with zeros, whose value
  is the id; for every non-negative 128-bit integer, \<open>encode_trace_id\<close> is \<^verbatim>\<open>0x\<close>
  followed by exactly 32 such digits.
\<close>

theorem encode_hex_format:
  "(0 \<le> x \<and> x < 2 ^ 64 \<longrightarrow>
      take 2 (encode_span_id x) = ''0x''
      \<and> length (drop 2 (encode_span_id x)) = 16
      \<and> list_all is_lower_hex_digit (drop 2 (encode_span_id x))
      \<and> int (hex_value (drop 2 (encode_span_id x))) = x)
   \<and> (0 \<le> y \<and> y < 2 ^ 128 \<longrightarrow>
      take 2 (encode_trace_id y) = ''0x''
      \<and> length (drop 2 (encode_trace_id y)) = 32
      \<and> list_all is_lower_hex_digit (drop 2 (encode_trace_id y))
      \<and> int (hex_value (drop 2 (encode_trace_id y))) = y)"
proof (intro conjI impI)
  assume x: "0 \<le> x \<and> x < 2 ^ 64"
  then have "x < 16 ^ 16" by (simp only: pow_2_64)
  with x have "length (format_0x 16 x) = 16"
    by (intro format_0x_length) simp_all
  then show "length (drop 2 (encode_span_id x)) = 16"
    by (simp add: encode_span_id_def format_span_id_def)
  from x show "list_all is_lower_hex_digit (drop 2 (encode_span_id x))"
    and "int (hex_value (drop 2 (encode_span_id x))) = x"
    by (simp_all add: encode_span_id_def format_span_id_def format_0x_digits)
  show "take 2 (encode_span_id x) = ''0x''"
    by (simp add: encode_span_id_def)
next
  assume y: "0 \<le> y \<and> y < 2 ^ 128"
  then have "y < 16 ^ 32" by (simp only: pow_2_128)
  with y have "length (format_0x 32 y) = 32"
    by (intro format_0x_length) simp_all
  then show "length (drop 2 (encode_trace_id y)) = 32"
    by (simp add: encode_trace_id_def format_trace_id_def)
  from y show "list_all is_lower_hex_digit (drop 2 (encode_trace_id y))"
    and "int (hex_value (drop 2 (encode_trace_id y))) = y"
    by (simp_all add: encode_trace_id_def format_trace_id_def format_0x_digits)
  show "take 2 (encode_trace_id y) = ''0x''"
    by (simp add: encode_trace_id_def)
qed

theorem encode_hex_format_witness:
  "(0::int) \<le> 48879 \<and> (48879::int) < 2 ^ 64
   \<and> encode_span_id 48879 = ''0x000000000000beef''
   \<and> length (drop 2 (encode_span_id 48879)) = 16
   \<and> list_all is_lower_hex_digit (drop 2 (encode_span_id 48879))
   \<and> (0::int) \<le> 48879 \<and> (48879::int) < 2 ^ 128
   \<and> encode_trace_id 48879 = ''0x0000000000000000000000000000beef''
   \<and> length (drop 2 (encode_trace_id 48879)) = 32
   \<and> list_all is_lower_hex_digit (drop 2 (encode_trace_id 48879))"
proof -
  have a: "(0::int) \<le> 48879 \<and> (48879::int) < 2 ^ 64" by simp
  have b: "(0::int) \<le> 48879 \<and> (48879::int) < 2 ^ 128" by simp
  have r: "replicate 12 (CHR ''0'') = ''000000000000''"
    and r': "replicate 28 (CHR ''0'') = ''0000000000000000000000000000''"
    by (simp_all add: eval_nat_numeral)
  have e: "encode_span_id 48879 = ''0x000000000000beef''"
    by (simp add: encode_span_id_def format_span_id_def format_0x_def hex_nat.simps r)
  have f: "encode_trace_id 48879 = ''0x0000000000000000000000000000beef''"
    by (simp add: encode_trace_id_def format_trace_id_def format_0x_def hex_nat.simps r')
  from encode_hex_format [of 48879 48879] a b
  have "length (drop 2 (encode_span_id 48879)) = 16"
    and "list_all is_lower_hex_digit (drop 2 (encode_span_id 48879))"
    and "length (drop 2 (encode_trace_id 48879)) = 32"
    and "list_all is_lower_hex_digit (drop 2 (encode_trace_id 48879))"
    by blast+
  with a b e f show ?thesis by blast
qed

text \<open>The scanner against the grammar of the accepted strings.\<close>

lemma body_char_not_space:
  assumes "body_char c"
  shows "\<not> py_isspace c"
proof (cases "c = CHR ''_''")
  case True
  then show ?thesis by (simp add: py_isspace_def)
next
  case False
  with assms have "is_hex_digit c" by (simp add: body_char_def)
  then show ?thesis by (simp add: hex_digit_not_special)
qed

lemma scan_digits_split:
  "scan_digits prev acc s =
     (case scan_digits prev acc (takeWhile body_char s) of
        None \<Rightarrow> None
      | Some (v, r) \<Rightarrow> Some (v, dropWhile body_char s))"
proof (induction s arbitrary: prev acc)
  case Nil
  then show ?case by simp
next
  case (Cons c cs)
  show ?case
  proof (cases "c = CHR ''_''")
    case True
    then have "body_char c" by (simp add: body_char_def)
    with True Cons [of c acc] show ?thesis
      by (simp cong: option.case_cong)
  next
    case False
    note u = this
    show ?thesis
    proof (cases "is_hex_digit c")
      case True
      then have "body_char c" and "digit_value c < 16"
        by (simp_all add: body_char_def digit_value_less_16_iff)
      with u Cons [of c "acc * 16 + digit_value c"] show ?thesis
        by (simp cong: option.case_cong)
    next
      case False
      with u have "\<not> body_char c" and "\<not> digit_value c < 16"
        by (simp_all add: body_char_def digit_value_less_16_iff)
      with u show ?thesis
        by simp
    qed
  qed
qed

lemma scan_digits_body:
  assumes "list_all body_char b"
  shows "(scan_digits prev acc b \<noteq> None) =
     (no_double_underscore (prev # b) \<and> last (prev # b) \<noteq> CHR ''_'')"
  using assms
proof (induction b arbitrary: prev acc)
  case Nil
  then show ?case by simp
next
  case (Cons c cs)
  then have cs: "list_all body_char cs" and c: "body_char c"
    by simp_all
  show ?case
  proof (cases "c = CHR ''_''")
    case True
    with Cons.IH [OF cs, of c acc] show ?thesis
      by simp
  next
    case False
    with c have "digit_value c < 16"
      by (simp add: body_char_def digit_value_less_16_iff)
    with False Cons.IH [OF cs, of c "acc * 16 + digit_value c"] show ?thesis
      by simp
  qed
qed

lemma skip_sign_strip: "snd (skip_sign s) = strip_sign s"
  by (cases s) (simp_all add: skip_sign_def strip_sign_def)

lemma skip_prefix_strip: "skip_prefix s = strip_prefix s"
proof (cases s)
  case Nil
  then show ?thesis by (simp add: skip_prefix_def strip_prefix_def)
next
  case (Cons c0 s1)
  note s = this
  show ?thesis
  proof (cases s1)
    case Nil
    with s show ?thesis by (simp add: skip_prefix_def strip_prefix_def)
  next
    case (Cons c1 s2)
    with s show ?thesis
      by (cases s2) (auto simp add: skip_prefix_def strip_prefix_def numeral_2_eq_2
          numeral_3_eq_3)
  qed
qed

lemma long_from_string_base_iff:
  "(\<exists>v rest. long_from_string_base t = Some (v, rest) \<and> dropWhile py_isspace rest = [])
   \<longleftrightarrow> digit_groups (takeWhile body_char t) \<and> list_all py_isspace (dropWhile body_char t)"
  (is "?L \<longleftrightarrow> ?R")
proof
  let ?a = "takeWhile body_char t"
  let ?r = "dropWhile body_char t"
  assume ?L
  then obtain v rest where ok: "long_from_string_base t = Some (v, rest)"
    and sp: "dropWhile py_isspace rest = []"
    by blast
  from ok obtain c cs where t: "t = c # cs" and c: "c \<noteq> CHR ''_''"
    by (cases t) (auto simp add: long_from_string_base_def split: if_splits)
  from ok t c have sc: "scan_digits (CHR 0x00) 0 t = Some (v, rest)" and ne: "rest \<noteq> t"
    by (auto simp add: long_from_string_base_def split: if_splits option.splits
        simp del: scan_digits.simps)
  from sc have a: "scan_digits (CHR 0x00) 0 ?a \<noteq> None" and r: "rest = ?r"
    by (subst (asm) scan_digits_split, auto split: option.splits)+
  from ne r have an: "?a \<noteq> []"
    by (metis takeWhile_dropWhile_id append_Nil)
  have all: "list_all body_char ?a"
    by (simp add: list_all_iff) (meson set_takeWhileD)
  from scan_digits_body [OF all, of "CHR 0x00" 0] a an
  have "no_double_underscore ?a" and "last ?a \<noteq> CHR ''_''"
    by (cases ?a; simp)+
  moreover from an t c have "hd ?a \<noteq> CHR ''_''"
    by (auto split: if_splits)
  moreover from sp r have "list_all py_isspace ?r"
    by (simp add: list_all_iff dropWhile_eq_Nil_conv)
  ultimately show ?R
    using an all by (simp add: digit_groups_def)
next
  let ?a = "takeWhile body_char t"
  let ?r = "dropWhile body_char t"
  assume R: ?R
  then have an: "?a \<noteq> []" and all: "list_all body_char ?a"
    and hd: "hd ?a \<noteq> CHR ''_''" and last: "last ?a \<noteq> CHR ''_''"
    and nd: "no_double_underscore ?a" and sp: "list_all py_isspace ?r"
    by (simp_all add: digit_groups_def)
  from an obtain c cs where t: "t = c # cs"
    by (cases t) auto
  with an hd have c: "c \<noteq> CHR ''_''"
    by (auto split: if_splits)
  from scan_digits_body [OF all, of "CHR 0x00" 0] an nd last
  have "scan_digits (CHR 0x00) 0 ?a \<noteq> None"
    by (cases ?a; simp)
  then obtain v r0 where "scan_digits (CHR 0x00) 0 ?a = Some (v, r0)"
    by auto
  then have sc: "scan_digits (CHR 0x00) 0 t = Some (v, ?r)"
    by (subst scan_digits_split) simp
  from an have ne: "?r \<noteq> t"
    by (metis length_dropWhile_le takeWhile_dropWhile_id append_eq_conv_conj
        append_self_conv2 append_Nil2 self_append_conv2 same_append_eq)
  from t c sc ne have "long_from_string_base t = Some (v, ?r)"
    by (simp add: long_from_string_base_def del: scan_digits.simps)
  moreover from sp have "dropWhile py_isspace ?r = []"
    by (simp add: list_all_iff dropWhile_eq_Nil_conv)
  ultimately show ?L by blast
qed

lemma body_split_of_space_split:
  assumes "list_all body_char (takeWhile (\<lambda>c. \<not> py_isspace c) t)"
  shows "takeWhile body_char t = takeWhile (\<lambda>c. \<not> py_isspace c) t
     \<and> dropWhile body_char t = dropWhile (\<lambda>c. \<not> py_isspace c) t"
  using assms
  by (induction t) (auto simp add: body_char_not_space split: if_splits)

lemma space_split_of_body_split:
  assumes "list_all py_isspace (dropWhile body_char t)"
  shows "takeWhile (\<lambda>c. \<not> py_isspace c) t = takeWhile body_char t
     \<and> dropWhile (\<lambda>c. \<not> py_isspace c) t = dropWhile body_char t"
  using assms
  by (induction t) (auto simp add: body_char_not_space split: if_splits)

lemma long_from_string_base_groups:
  "(\<exists>v rest. long_from_string_base t = Some (v, rest) \<and> dropWhile py_isspace rest = [])
   \<longleftrightarrow> digit_groups (takeWhile (\<lambda>c. \<not> py_isspace c) t)
       \<and> list_all py_isspace (dropWhile (\<lambda>c. \<not> py_isspace c) t)"
  (is "?L \<longleftrightarrow> ?R")
proof
  assume ?L
  then have b: "digit_groups (takeWhile body_char t)"
    and r: "list_all py_isspace (dropWhile body_char t)"
    by (simp_all only: long_from_string_base_iff)
  from space_split_of_body_split [OF r] b r show ?R
    by simp
next
  assume R: ?R
  then have "list_all body_char (takeWhile (\<lambda>c. \<not> py_isspace c) t)"
    by (simp add: digit_groups_def)
  from body_split_of_space_split [OF this] R
  have "digit_groups (takeWhile body_char t) \<and> list_all py_isspace (dropWhile body_char t)"
    by simp
  then show ?L
    by (simp only: long_from_string_base_iff)
qed

lemma int_base16_ok_iff:
  "(\<exists>v. int_base16 s = Inr v) \<longleftrightarrow> python_hex_literal s"
proof -
  obtain negative s2 where sg: "skip_sign (dropWhile py_isspace s) = (negative, s2)"
    by (cases "skip_sign (dropWhile py_isspace s)")
  then have s2: "s2 = strip_sign (dropWhile py_isspace s)"
    using skip_sign_strip [of "dropWhile py_isspace s"] by simp
  let ?t = "skip_prefix s2"
  have "(\<exists>v. int_base16 s = Inr v) \<longleftrightarrow>
      (\<exists>v rest. long_from_string_base ?t = Some (v, rest) \<and> dropWhile py_isspace rest = [])"
    by (auto simp add: int_base16_def sg split: option.splits if_splits)
  also have "\<dots> \<longleftrightarrow> python_hex_literal s"
    by (simp only: long_from_string_base_groups python_hex_literal_def Let_def
        skip_prefix_strip s2)
  finally show ?thesis .
qed

lemma int_base16_error: "int_base16 s = Inl e \<Longrightarrow> e = ValueError"
  by (auto simp add: int_base16_def split: prod.splits option.splits if_splits)

lemma int_base16_not_literal:
  assumes "\<not> python_hex_literal s"
  shows "int_base16 s = Inl ValueError"
proof (cases "int_base16 s")
  case (Inl e)
  then show ?thesis using int_base16_error by blast
next
  case (Inr v)
  with assms int_base16_ok_iff show ?thesis by blast
qed

text \<open>
  C8. A string that is not valid hexadecimal makes \<open>decode_id\<close> fail, and a valid one
  is decoded to its value. As stated this fails: Python's \<^verbatim>\<open>int(s, 16)\<close> also accepts a
  sign, surrounding white space and single underscores between digits, so
  \<^verbatim>\<open>"-ff"\<close>, \<^verbatim>\<open>"f_f"\<close> and \<^verbatim>\<open>" ff "\<close> are decoded although they are not valid
  hexadecimal.
\<close>

theorem decode_id_accepts_more_than_hex:
  "\<not> valid_hex ''-ff'' \<and> decode_id ''-ff'' = Inr (- 255)
   \<and> \<not> valid_hex ''f_f'' \<and> decode_id ''f_f'' = Inr 255
   \<and> \<not> valid_hex '' ff '' \<and> decode_id '' ff '' = Inr 255"
  by (simp add: valid_hex_def hex_body_def is_hex_digit_def decode_id_def int_base16_def
      skip_sign_def skip_prefix_def long_from_string_base_def py_isspace_def
      digit_value_def digit_table_eq)

text \<open>
  C8, amended. Every valid hexadecimal string, with or without the prefix \<^verbatim>\<open>0x\<close>, is
  decoded to its value. An ASCII string fails with \<^verbatim>\<open>ValueError\<close> whenever it is not a
  hexadecimal literal in Python's sense (white space around, an optional sign, an
  optional prefix \<^verbatim>\<open>0x\<close> or \<^verbatim>\<open>0X\<close>, hexadecimal digits with single underscores
  between them), and every such literal is decoded.
\<close>

theorem decode_id_python_hex_literal:
  "(valid_hex s \<longrightarrow> decode_id s = Inr (int (hex_value (hex_body s))))
   \<and> (is_ascii s \<and> \<not> python_hex_literal s \<longrightarrow> decode_id s = Inl ValueError)
   \<and> (python_hex_literal s \<longrightarrow> (\<exists>v. decode_id s = Inr v))"
proof (intro conjI impI)
  assume "valid_hex s"
  then show "decode_id s = Inr (int (hex_value (hex_body s)))"
    by (rule decode_valid_hex)
next
  assume "is_ascii s \<and> \<not> python_hex_literal s"
  then show "decode_id s = Inl ValueError"
    by (simp add: decode_id_def int_base16_not_literal)
next
  assume "python_hex_literal s"
  then show "\<exists>v. decode_id s = Inr v"
    by (simp add: decode_id_def int_base16_ok_iff)
qed

theorem decode_id_python_hex_literal_witness:
  "valid_hex ''0x1f'' \<and> decode_id ''0x1f'' = Inr 31
   \<and> valid_hex ''BEEF'' \<and> decode_id ''BEEF'' = Inr 48879
   \<and> is_ascii ''0x1g'' \<and> \<not> python_hex_literal ''0x1g'' \<and> decode_id ''0x1g'' = Inl ValueError
   \<and> is_ascii ''1__f'' \<and> \<not> python_hex_literal ''1__f'' \<and> decode_id ''1__f'' = Inl ValueError
   \<and> python_hex_literal '' -0X_f_f '' \<and> (\<exists>v. decode_id '' -0X_f_f '' = Inr v)"
proof -
  have a: "valid_hex ''0x1f''" "valid_hex ''BEEF''"
    by (simp_all add: valid_hex_def hex_body_def is_hex_digit_def)
  have b: "is_ascii ''0x1g'' \<and> \<not> python_hex_literal ''0x1g''"
    "is_ascii ''1__f'' \<and> \<not> python_hex_literal ''1__f''"
    by (simp_all add: is_ascii_def python_hex_literal_def strip_sign_def strip_prefix_def
        py_isspace_def digit_groups_def body_char_def is_hex_digit_def)
  have c: "python_hex_literal '' -0X_f_f ''"
    by (simp add: python_hex_literal_def strip_sign_def strip_prefix_def
        py_isspace_def digit_groups_def body_char_def is_hex_digit_def)
  have v: "int (hex_value (hex_body ''0x1f'')) = 31" "int (hex_value (hex_body ''BEEF'')) = 48879"
    by (simp_all add: hex_value_def hex_body_def hex_digit_value_def)
  from decode_id_python_hex_literal [of "''0x1f''"] a v
  have 1: "decode_id ''0x1f'' = Inr 31" by simp
  from decode_id_python_hex_literal [of "''BEEF''"] a v
  have 2: "decode_id ''BEEF'' = Inr 48879" by simp
  from decode_id_python_hex_literal [of "''0x1g''"] b
  have 3: "decode_id ''0x1g'' = Inl ValueError" by blast
  from decode_id_python_hex_literal [of "''1__f''"] b
  have 4: "decode_id ''1__f'' = Inl ValueError" by blast
  from decode_id_python_hex_literal [of "'' -0X_f_f ''"] c
  have 5: "\<exists>v. decode_id '' -0X_f_f '' = Inr v" by blast
  from a b c 1 2 3 4 5 show ?thesis by blast
qed

section \<open>Attribute decoder: proofs\<close>

lemma get_otel_attribute_missing:
  assumes "attributes span = Some attrs" and "attrs key = None"
  shows "get_otel_attribute parse span key = Inr PyNone"
  using assms by (simp add: get_otel_attribute_def dict_get_def json_loads_def)

lemma get_otel_attribute_raises:
  assumes "attributes span = Some attrs" and "attrs key = Some (PyStr s)"
    and "parse s = Inl e" and "is_Exception e"
  shows "get_otel_attribute parse span key = Inr PyNone"
  using assms by (simp add: get_otel_attribute_def dict_get_def json_loads_def)

lemma get_otel_attribute_propagates:
  assumes "get_otel_attribute parse span key = Inl e"
  shows "\<not> is_Exception e \<and> (\<exists>s. parse s = Inl e)"
  using assms
  by (auto simp add: get_otel_attribute_def json_loads_def
      split: option.splits sum.splits if_splits py_value.splits)

lemma get_otel_attribute_decoded:
  assumes "attributes span = Some attrs" and "attrs key = Some (PyStr s)"
    and "parse s = Inr v"
  shows "get_otel_attribute parse span key = Inr v"
  using assms by (simp add: get_otel_attribute_def dict_get_def json_loads_def)

text \<open>
  C7. For every span and key, \<open>get_otel_attribute\<close> returns \<^verbatim>\<open>None\<close> and does not raise
  when the key is missing from the attribute map or when the stored value is not
  syntactically valid JSON. As stated this fails: \<^verbatim>\<open>json.loads\<close> accepts the texts
  \<^verbatim>\<open>NaN\<close> and \<^verbatim>\<open>Infinity\<close>, which are not valid JSON (no JSON value starts with \<^verbatim>\<open>N\<close>
  or \<^verbatim>\<open>I\<close>), and for such a stored value the function returns the decoded float,
  whatever the parser does on the texts that are no constant (here it rejects them).
\<close>

theorem get_otel_attribute_accepts_nan:
  "\<not> json_value_start ''NaN''
   \<and> get_otel_attribute (json_loads_text (\<lambda>t. Inl JSONDecodeError))
        \<lparr>attributes = Some [''k'' \<mapsto> PyStr ''NaN'']\<rparr> ''k'' = Inr (PyFloat ''nan'')
   \<and> \<not> json_value_start ''Infinity''
   \<and> get_otel_attribute (json_loads_text (\<lambda>t. Inl JSONDecodeError))
        \<lparr>attributes = Some [''k'' \<mapsto> PyStr ''Infinity'']\<rparr> ''k'' = Inr (PyFloat ''inf'')"
  by (simp add: json_value_start_def json_whitespace_def get_otel_attribute_def
      dict_get_def json_loads_def json_loads_text_def json_constant_def)

text \<open>
  C7, amended. For every span and key, \<open>get_otel_attribute\<close> returns \<^verbatim>\<open>None\<close> and does not
  raise when the key is missing from the attribute map, and when \<^verbatim>\<open>json.loads\<close> raises
  on the stored value, as it does on a text it does not accept; a stored value that
  \<^verbatim>\<open>json.loads\<close> accepts is returned decoded. No failure of the decoding propagates:
  whenever the parser raises nothing but exceptions derived from \<^verbatim>\<open>Exception\<close>, the
  function returns a value.
\<close>

theorem get_otel_attribute_absent:
  "(attributes span = Some attrs \<and> attrs key = None \<longrightarrow>
      get_otel_attribute parse span key = Inr PyNone)
   \<and> (attributes span = Some attrs \<and> attrs key = Some (PyStr s)
        \<and> parse s = Inl e \<and> is_Exception e \<longrightarrow>
      get_otel_attribute parse span key = Inr PyNone)
   \<and> (attributes span = Some attrs \<and> attrs key = Some (PyStr s) \<and> parse s = Inr v \<longrightarrow>
      get_otel_attribute parse span key = Inr v)
   \<and> ((\<forall>t x. parse t = Inl x \<longrightarrow> is_Exception x) \<longrightarrow>
      (\<exists>r. get_otel_attribute parse span key = Inr r))"
proof (intro conjI impI)
  assume "attributes span = Some attrs \<and> attrs key = None"
  then show "get_otel_attribute parse span key = Inr PyNone"
    by (simp add: get_otel_attribute_missing)
next
  assume "attributes span = Some attrs \<and> attrs key = Some (PyStr s)
      \<and> parse s = Inl e \<and> is_Exception e"
  then show "get_otel_attribute parse span key = Inr PyNone"
    using get_otel_attribute_raises [of span attrs key s parse e] by simp
next
  assume "attributes span = Some attrs \<and> attrs key = Some (PyStr s) \<and> parse s = Inr v"
  then show "get_otel_attribute parse span key = Inr v"
    using get_otel_attribute_decoded [of span attrs key s parse v] by simp
next
  assume all: "\<forall>t x. parse t = Inl x \<longrightarrow> is_Exception x"
  show "\<exists>r. get_otel_attribute parse span key = Inr r"
  proof (cases "get_otel_attribute parse span key")
    case (Inl x)
    with get_otel_attribute_propagates [OF Inl] all show ?thesis by blast
  next
    case (Inr r)
    then show ?thesis by blast
  qed
qed

theorem get_otel_attribute_absent_witness:
  "[''a'' \<mapsto> PyStr ''{oops'', ''n'' \<mapsto> PyStr '' NaN ''] ''b'' = None
   \<and> get_otel_attribute (json_loads_text (\<lambda>t. Inl JSONDecodeError))
        \<lparr>attributes = Some [''a'' \<mapsto> PyStr ''{oops'', ''n'' \<mapsto> PyStr '' NaN '']\<rparr> ''b''
       = Inr PyNone
   \<and> json_loads_text (\<lambda>t. Inl JSONDecodeError) ''{oops'' = Inl JSONDecodeError
   \<and> get_otel_attribute (json_loads_text (\<lambda>t. Inl JSONDecodeError))
        \<lparr>attributes = Some [''a'' \<mapsto> PyStr ''{oops'', ''n'' \<mapsto> PyStr '' NaN '']\<rparr> ''a''
       = Inr PyNone
   \<and> json_loads_text (\<lambda>t. Inl JSONDecodeError) '' NaN '' = Inr (PyFloat ''nan'')
   \<and> get_otel_attribute (json_loads_text (\<lambda>t. Inl JSONDecodeError))
        \<lparr>attributes = Some [''a'' \<mapsto> PyStr ''{oops'', ''n'' \<mapsto> PyStr '' NaN '']\<rparr> ''n''
       = Inr (PyFloat ''nan'')
   \<and> (\<exists>r. get_otel_attribute (json_loads_text (\<lambda>t. Inl JSONDecodeError))
        \<lparr>attributes = None\<rparr> ''a'' = Inr r)"
proof -
  let ?parse = "json_loads_text (\<lambda>t. Inl JSONDecodeError)"
  let ?attrs = "[''a'' \<mapsto> PyStr ''{oops'', ''n'' \<mapsto> PyStr '' NaN '']"
  let ?span = "\<lparr>attributes = Some ?attrs\<rparr>"
  have a: "attributes ?span = Some ?attrs" by simp
  have b: "?attrs ''b'' = None" by simp
  have c: "?attrs ''a'' = Some (PyStr ''{oops'')" by simp
  have d: "?parse ''{oops'' = Inl JSONDecodeError"
    by (simp add: json_loads_text_def json_constant_def json_whitespace_def)
  have x: "is_Exception JSONDecodeError" by simp
  have n: "?attrs ''n'' = Some (PyStr '' NaN '')" by simp
  have f: "?parse '' NaN '' = Inr (PyFloat ''nan'')"
    by (simp add: json_loads_text_def json_constant_def json_whitespace_def)
  have e: "\<forall>t x. ?parse t = Inl x \<longrightarrow> is_Exception x"
    by (auto simp add: json_loads_text_def split: option.splits)
  from get_otel_attribute_absent [where span = ?span and attrs = ?attrs and key = "''b''"
      and parse = ?parse] a b
  have 1: "get_otel_attribute ?parse ?span ''b'' = Inr PyNone" by blast
  from get_otel_attribute_absent [where span = ?span and attrs = ?attrs and key = "''a''"
      and s = "''{oops''" and parse = ?parse and e = JSONDecodeError] a c d x
  have 2: "get_otel_attribute ?parse ?span ''a'' = Inr PyNone" by blast
  from get_otel_attribute_absent [where span = ?span and attrs = ?attrs and key = "''n''"
      and s = "'' NaN ''" and parse = ?parse and v = "PyFloat ''nan''"] a n f
  have 3: "get_otel_attribute ?parse ?span ''n'' = Inr (PyFloat ''nan'')" by blast
  from get_otel_attribute_absent [where span = "\<lparr>attributes = None\<rparr>" and key = "''a''"
      and parse = ?parse] e
  have 4: "\<exists>r. get_otel_attribute ?parse \<lparr>attributes = None\<rparr> ''a'' = Inr r" by blast
  from b d f 1 2 3 4 show ?thesis by blast
qed

text \<open>
  C10. When the stored value is the JSON literal \<^verbatim>\<open>null\<close>, which the parser decodes to
  \<^verbatim>\<open>None\<close>, \<open>get_otel_attribute\<close> returns \<^verbatim>\<open>None\<close>: the same result as for a missing key
  and for a stored value that is not valid JSON.
\<close>

theorem get_otel_attribute_null:
  "(attributes span = Some attrs \<and> attrs key = Some (PyStr ''null'')
      \<and> parse ''null'' = Inr PyNone \<longrightarrow>
      get_otel_attribute parse span key = Inr PyNone)
   \<and> (attributes span = Some attrs \<and> attrs key = Some (PyStr ''null'')
      \<and> parse ''null'' = Inr PyNone
      \<and> attrs missing = None
      \<and> attrs malformed = Some (PyStr bad) \<and> parse bad = Inl JSONDecodeError \<longrightarrow>
      get_otel_attribute parse span key = get_otel_attribute parse span missing
      \<and> get_otel_attribute parse span key = get_otel_attribute parse span malformed)"
proof (intro conjI impI)
  assume "attributes span = Some attrs \<and> attrs key = Some (PyStr ''null'')
      \<and> parse ''null'' = Inr PyNone"
  then show "get_otel_attribute parse span key = Inr PyNone"
    by (simp add: get_otel_attribute_def dict_get_def json_loads_def)
next
  assume h: "attributes span = Some attrs \<and> attrs key = Some (PyStr ''null'')
      \<and> parse ''null'' = Inr PyNone
      \<and> attrs missing = None
      \<and> attrs malformed = Some (PyStr bad) \<and> parse bad = Inl JSONDecodeError"
  then have n: "get_otel_attribute parse span key = Inr PyNone"
    by (simp add: get_otel_attribute_def dict_get_def json_loads_def)
  from h have m: "get_otel_attribute parse span missing = Inr PyNone"
    by (simp add: get_otel_attribute_missing)
  from h have b: "get_otel_attribute parse span malformed = Inr PyNone"
    using get_otel_attribute_raises [of span attrs malformed bad parse JSONDecodeError]
    by simp
  from n m show "get_otel_attribute parse span key = get_otel_attribute parse span missing"
    by simp
  from n b show "get_otel_attribute parse span key = get_otel_attribute parse span malformed"
    by simp
qed

theorem get_otel_attribute_null_witness:
  "[''n'' \<mapsto> PyStr ''null'', ''m'' \<mapsto> PyStr ''{oops''] ''n'' = Some (PyStr ''null'')
   \<and> [''n'' \<mapsto> PyStr ''null'', ''m'' \<mapsto> PyStr ''{oops''] ''z'' = None
   \<and> [''n'' \<mapsto> PyStr ''null'', ''m'' \<mapsto> PyStr ''{oops''] ''m'' = Some (PyStr ''{oops'')
   \<and> get_otel_attribute
        (\<lambda>t. if t = ''null'' then Inr PyNone else if t = ''7'' then Inr (PyInt 7)
             else Inl JSONDecodeError)
        \<lparr>attributes = Some [''n'' \<mapsto> PyStr ''null'', ''m'' \<mapsto> PyStr ''{oops'']\<rparr> ''n''
       = Inr PyNone
   \<and> get_otel_attribute
        (\<lambda>t. if t = ''null'' then Inr PyNone else if t = ''7'' then Inr (PyInt 7)
             else Inl JSONDecodeError)
        \<lparr>attributes = Some [''n'' \<mapsto> PyStr ''null'', ''m'' \<mapsto> PyStr ''{oops'']\<rparr> ''n''
       = get_otel_attribute
        (\<lambda>t. if t = ''null'' then Inr PyNone else if t = ''7'' then Inr (PyInt 7)
             else Inl JSONDecodeError)
        \<lparr>attributes = Some [''n'' \<mapsto> PyStr ''null'', ''m'' \<mapsto> PyStr ''{oops'']\<rparr> ''z''
   \<and> get_otel_attribute
        (\<lambda>t. if t = ''null'' then Inr PyNone else if t = ''7'' then Inr (PyInt 7)
             else Inl JSONDecodeError)
        \<lparr>attributes = Some [''n'' \<mapsto> PyStr ''null'', ''m'' \<mapsto> PyStr ''{oops'']\<rparr> ''n''
       = get_otel_attribute
        (\<lambda>t. if t = ''null'' then Inr PyNone else if t = ''7'' then Inr (PyInt 7)
             else Inl JSONDecodeError)
        \<lparr>attributes = Some [''n'' \<mapsto> PyStr ''null'', ''m'' \<mapsto> PyStr ''{oops'']\<rparr> ''m''"
proof -
  let ?parse = "\<lambda>t. if t = ''null'' then Inr PyNone else if t = ''7'' then Inr (PyInt 7)
      else Inl JSONDecodeError"
  let ?attrs = "[''n'' \<mapsto> PyStr ''null'', ''m'' \<mapsto> PyStr ''{oops'']"
  let ?span = "\<lparr>attributes = Some ?attrs\<rparr>"
  have h: "attributes ?span = Some ?attrs" "?attrs ''n'' = Some (PyStr ''null'')"
    "?parse ''null'' = Inr PyNone" "?attrs ''z'' = None"
    "?attrs ''m'' = Some (PyStr ''{oops'')" "?parse ''{oops'' = Inl JSONDecodeError"
    by simp_all
  from get_otel_attribute_null [where span = ?span and attrs = ?attrs and key = "''n''"
      and parse = ?parse and missing = "''z''" and malformed = "''m''" and bad = "''{oops''"] h
  have "get_otel_attribute ?parse ?span ''n'' = Inr PyNone"
    and "get_otel_attribute ?parse ?span ''n'' = get_otel_attribute ?parse ?span ''z''"
    and "get_otel_attribute ?parse ?span ''n'' = get_otel_attribute ?parse ?span ''m''"
    by blast+
  with h show ?thesis by blast
qed

section \<open>Request id: proofs\<close>

lemma request_id_error_iff:
  "(\<exists>e. maybe_get_request_id importable ambient evaluate_mode = Inl e) \<longleftrightarrow>
     (\<exists>c. importable \<and> ambient = Some c \<and> evaluate_mode \<and> is_evaluate c
          \<and> (request_id c = None \<or> request_id c = Some []))"
  by (auto simp add: maybe_get_request_id_def try_get_prediction_context_def truthy_def
      split: option.splits if_splits)

text \<open>
  C9. \<open>maybe_get_request_id\<close> raises exactly when the context is consulted in evaluate
  mode and its request id is absent. As stated this fails, whether evaluate mode is read
  as the flag of the call, as the flag of the context or as both: a context in evaluate
  mode whose request id is the empty string also raises when the call is in evaluate
  mode; and with an absent request id no error is raised when only the call is in
  evaluate mode, or only the context.
\<close>

theorem maybe_get_request_id_empty_string_raises:
  "maybe_get_request_id True
      (Some \<lparr>request_id = Some '''', is_evaluate = True, dependencies_schemas = None\<rparr>) True
     = Inl (MlflowTracingException ''BAD_REQUEST'')
   \<and> request_id \<lparr>request_id = Some '''', is_evaluate = True, dependencies_schemas = None\<rparr>
       \<noteq> None
   \<and> maybe_get_request_id True
      (Some \<lparr>request_id = None, is_evaluate = False, dependencies_schemas = None\<rparr>) True
     = Inr None
   \<and> maybe_get_request_id True
      (Some \<lparr>request_id = None, is_evaluate = True, dependencies_schemas = None\<rparr>) False
     = Inr None"
  by (simp add: maybe_get_request_id_def try_get_prediction_context_def truthy_def)

text \<open>
  C9, amended. \<open>maybe_get_request_id\<close> raises, and then the exception of error code
  \<^verbatim>\<open>BAD_REQUEST\<close>, exactly when there is a prediction context, the call is made in
  evaluate mode, the context is in evaluate mode and its request id is absent or empty.
  Otherwise it returns without error: \<^verbatim>\<open>None\<close> when there is no context or when the
  call is in evaluate mode and the context is not, and the request id of the context in
  every other case.
\<close>

theorem maybe_get_request_id_raises:
  "((\<exists>e. maybe_get_request_id importable ambient evaluate_mode = Inl e) \<longleftrightarrow>
      (\<exists>c. importable \<and> ambient = Some c \<and> evaluate_mode \<and> is_evaluate c
           \<and> (request_id c = None \<or> request_id c = Some [])))
   \<and> (\<forall>e. maybe_get_request_id importable ambient evaluate_mode = Inl e \<longrightarrow>
          e = MlflowTracingException ''BAD_REQUEST'')
   \<and> (\<forall>r. maybe_get_request_id importable ambient evaluate_mode = Inr r \<longrightarrow>
          r = (case try_get_prediction_context importable ambient of
                 None \<Rightarrow> None
               | Some c \<Rightarrow> if evaluate_mode \<and> \<not> is_evaluate c then None else request_id c))"
proof (intro conjI allI impI)
  show "(\<exists>e. maybe_get_request_id importable ambient evaluate_mode = Inl e) \<longleftrightarrow>
      (\<exists>c. importable \<and> ambient = Some c \<and> evaluate_mode \<and> is_evaluate c
           \<and> (request_id c = None \<or> request_id c = Some []))"
    by (rule request_id_error_iff)
next
  fix e
  assume "maybe_get_request_id importable ambient evaluate_mode = Inl e"
  then show "e = MlflowTracingException ''BAD_REQUEST''"
    by (auto simp add: maybe_get_request_id_def split: option.splits if_splits)
next
  fix r
  assume "maybe_get_request_id importable ambient evaluate_mode = Inr r"
  then show "r = (case try_get_prediction_context importable ambient of
                 None \<Rightarrow> None
               | Some c \<Rightarrow> if evaluate_mode \<and> \<not> is_evaluate c then None else request_id c)"
    by (auto simp add: maybe_get_request_id_def split: option.splits if_splits)
qed

theorem maybe_get_request_id_raises_witness:
  "maybe_get_request_id True
      (Some \<lparr>request_id = None, is_evaluate = True, dependencies_schemas = None\<rparr>) True
     = Inl (MlflowTracingException ''BAD_REQUEST'')
   \<and> maybe_get_request_id True
      (Some \<lparr>request_id = Some ''r1'', is_evaluate = True, dependencies_schemas = None\<rparr>) True
     = Inr (Some ''r1'')
   \<and> maybe_get_request_id True
      (Some \<lparr>request_id = None, is_evaluate = True, dependencies_schemas = None\<rparr>) False
     = Inr None"
proof -
  let ?c = "\<lparr>request_id = None, is_evaluate = True, dependencies_schemas = None\<rparr>"
  let ?d = "\<lparr>request_id = Some ''r1'', is_evaluate = True, dependencies_schemas = None\<rparr>"
  have "\<exists>c. True \<and> Some ?c = Some c \<and> True \<and> is_evaluate c
      \<and> (request_id c = None \<or> request_id c = Some [])"
    by simp
  with maybe_get_request_id_raises [of True "Some ?c" True]
  have 1: "maybe_get_request_id True (Some ?c) True = Inl (MlflowTracingException ''BAD_REQUEST'')"
    by blast
  have "\<not> (\<exists>c. True \<and> Some ?d = Some c \<and> True \<and> is_evaluate c
      \<and> (request_id c = None \<or> request_id c = Some []))"
    by simp
  with maybe_get_request_id_raises [of True "Some ?d" True]
  have "\<not> (\<exists>e. maybe_get_request_id True (Some ?d) True = Inl e)"
    by blast
  then obtain r where r: "maybe_get_request_id True (Some ?d) True = Inr r"
    by (cases "maybe_get_request_id True (Some ?d) True") auto
  with maybe_get_request_id_raises [of True "Some ?d" True]
  have "r = (case try_get_prediction_context True (Some ?d) of
                 None \<Rightarrow> None
               | Some c \<Rightarrow> if True \<and> \<not> is_evaluate c then None else request_id c)"
    by blast
  with r have 2: "maybe_get_request_id True (Some ?d) True = Inr (Some ''r1'')"
    by (simp add: try_get_prediction_context_def)
  have "\<not> (\<exists>c. True \<and> Some ?c = Some c \<and> False \<and> is_evaluate c
      \<and> (request_id c = None \<or> request_id c = Some []))"
    by simp
  with maybe_get_request_id_raises [of True "Some ?c" False]
  have "\<not> (\<exists>e. maybe_get_request_id True (Some ?c) False = Inl e)"
    by blast
  then obtain q where q: "maybe_get_request_id True (Some ?c) False = Inr q"
    by (cases "maybe_get_request_id True (Some ?c) False") auto
  with maybe_get_request_id_raises [of True "Some ?c" False]
  have "q = (case try_get_prediction_context True (Some ?c) of
                 None \<Rightarrow> None
               | Some c \<Rightarrow> if False \<and> \<not> is_evaluate c then None else request_id c)"
    by blast
  with q have 3: "maybe_get_request_id True (Some ?c) False = Inr None"
    by (simp add: try_get_prediction_context_def)
  from 1 2 3 show ?thesis by blast
qed

section \<open>The JSON encoder: proofs\<close>




lemma langchain_rule_calls:
  "CallStr \<notin> set (snd (langchain_rule env obj)) \<and> length (snd (langchain_rule env obj)) \<le> 1"
  by (simp add: langchain_rule_def attempt_def split: sum.splits)

lemma pydantic_rule_calls:
  "CallStr \<notin> set (snd (pydantic_rule env obj)) \<and> length (snd (pydantic_rule env obj)) \<le> 1"
  by (simp add: pydantic_rule_def attempt_def split: sum.splits)

lemma dataclass_rule_calls:
  "CallStr \<notin> set (snd (dataclass_rule obj)) \<and> length (snd (dataclass_rule obj)) \<le> 1"
  by (simp add: dataclass_rule_def split: sum.splits)





lemma str_rule_eq:
  "str_rule obj =
     (case str_method obj of
        Inl e \<Rightarrow> (Inl e, [CallStr])
      | Inr s \<Rightarrow> (Inr (PyStr s), [CallStr]))"
  by (simp add: str_rule_def JSONEncoder_default_def)


lemma default_unclassified:
  assumes "unclassified env obj"
  shows "fst (TraceJSONEncoder_default env obj) =
     (case is_safe_to_encode_str env obj of
        Inl e \<Rightarrow> Inl e
      | Inr safe \<Rightarrow>
          if safe then (case str_method obj of Inl e \<Rightarrow> Inl e | Inr s \<Rightarrow> Inr (PyStr s))
          else Inr (PyType (type_name obj)))"
  using assms
  by (cases "langchain_rule env obj"; cases "pydantic_rule env obj";
      cases "dataclass_rule obj")
    (auto simp add: unclassified_def TraceJSONEncoder_default_def str_rule_eq
      split: sum.splits)


lemma default_calls_str:
  assumes "CallStr \<in> set (snd (TraceJSONEncoder_default env obj))"
  shows "is_safe_to_encode_str env obj = Inr True"
proof -
  obtain r1 c1 where l: "langchain_rule env obj = (r1, c1)"
    by (cases "langchain_rule env obj")
  obtain r2 c2 where p: "pydantic_rule env obj = (r2, c2)"
    by (cases "pydantic_rule env obj")
  obtain r3 c3 where d: "dataclass_rule obj = (r3, c3)"
    by (cases "dataclass_rule obj")
  from l p d langchain_rule_calls [of env obj] pydantic_rule_calls [of env obj]
    dataclass_rule_calls [of obj]
  have "CallStr \<notin> set c1" "CallStr \<notin> set c2" "CallStr \<notin> set c3"
    by simp_all
  with assms l p d show ?thesis
    by (auto simp add: TraceJSONEncoder_default_def
        split: option.splits if_splits sum.splits)
qed

lemma default_unclassified_calls:
  assumes "unclassified env obj" and "is_safe_to_encode_str env obj = Inr True"
  shows "CallStr \<in> set (snd (TraceJSONEncoder_default env obj))"
  using assms
  by (cases "langchain_rule env obj"; cases "pydantic_rule env obj";
      cases "dataclass_rule obj")
    (auto simp add: unclassified_def TraceJSONEncoder_default_def str_rule_eq
      split: sum.splits)





text \<open>
  C6. For every value that is an instance of a type whose string conversion is unsafe,
  the library of these types being present, the encoder returns the type of the value
  and never calls its string conversion; when the library is absent the check is skipped.
  As stated this fails: the safety gate is rule 4, and a streaming response that is a
  dataclass which \<^verbatim>\<open>asdict\<close> can convert is encoded by rule 3 as its dict.
\<close>

theorem default_streaming_dataclass_is_dict:
  "fst (TraceJSONEncoder_default
      \<lparr>import_langchain = Inl ImportError, langchain_before_0_3 = Inr False,
       import_langchain_core_pydantic_v1 = Inl ImportError,
       import_pydantic = Inl ImportError, pydantic_v2 = Inr False,
       import_llama_index = Inr ()\<rparr>
      \<lparr>type_name = ''StreamingResponse'', is_langchain_model = Inr False,
       is_pydantic_model = Inr False, dict_method = Inl AttributeError,
       model_dump_method = Inl AttributeError, is_dataclass = Inr True,
       asdict = Inr (PyDict [(''response_txt'', PyNone)]),
       is_streaming_response = Inr True, str_method = Inr ''tokens''\<rparr>)
     = Inr (PyDict [(''response_txt'', PyNone)])
   \<and> fst (TraceJSONEncoder_default
      \<lparr>import_langchain = Inl ImportError, langchain_before_0_3 = Inr False,
       import_langchain_core_pydantic_v1 = Inl ImportError,
       import_pydantic = Inl ImportError, pydantic_v2 = Inr False,
       import_llama_index = Inr ()\<rparr>
      \<lparr>type_name = ''StreamingResponse'', is_langchain_model = Inr False,
       is_pydantic_model = Inr False, dict_method = Inl AttributeError,
       model_dump_method = Inl AttributeError, is_dataclass = Inr True,
       asdict = Inr (PyDict [(''response_txt'', PyNone)]),
       is_streaming_response = Inr True, str_method = Inr ''tokens''\<rparr>)
     \<noteq> Inr (PyType ''StreamingResponse'')"
  by (simp add: TraceJSONEncoder_default_def langchain_rule_def pydantic_rule_def
      dataclass_rule_def caught_def attempt_def)

text \<open>
  C6, amended. For every value that is an instance of a type whose string conversion is
  unsafe, the library of these types being present: the encoder never calls the string
  conversion of the value, and when no earlier rule classifies the value it returns the
  type of the value. When the library is absent the check is skipped (every value counts
  as safe) and a value that no earlier rule classifies goes on to rule 5, the string
  conversion.
\<close>

theorem default_unsafe_str:
  "(import_llama_index env = Inr () \<and> is_streaming_response obj = Inr True \<longrightarrow>
      CallStr \<notin> set (snd (TraceJSONEncoder_default env obj)))
   \<and> (import_llama_index env = Inr () \<and> is_streaming_response obj = Inr True
        \<and> unclassified env obj \<longrightarrow>
      fst (TraceJSONEncoder_default env obj) = Inr (PyType (type_name obj)))
   \<and> (import_llama_index env = Inl ImportError \<longrightarrow>
        is_safe_to_encode_str env obj = Inr True)
   \<and> (import_llama_index env = Inl ImportError \<and> unclassified env obj \<longrightarrow>
      CallStr \<in> set (snd (TraceJSONEncoder_default env obj))
      \<and> fst (TraceJSONEncoder_default env obj) =
          (case str_method obj of Inl e \<Rightarrow> Inl e | Inr s \<Rightarrow> Inr (PyStr s)))"
proof (intro conjI impI)
  assume a: "import_llama_index env = Inr () \<and> is_streaming_response obj = Inr True"
  then have "is_safe_to_encode_str env obj = Inr False"
    by (simp add: is_safe_to_encode_str_def)
  with default_calls_str [of env obj]
  show "CallStr \<notin> set (snd (TraceJSONEncoder_default env obj))"
    by auto
next
  assume a: "import_llama_index env = Inr () \<and> is_streaming_response obj = Inr True
      \<and> unclassified env obj"
  then have "is_safe_to_encode_str env obj = Inr False"
    by (simp add: is_safe_to_encode_str_def)
  with a show "fst (TraceJSONEncoder_default env obj) = Inr (PyType (type_name obj))"
    by (simp add: default_unclassified)
next
  assume "import_llama_index env = Inl ImportError"
  then show "is_safe_to_encode_str env obj = Inr True"
    by (simp add: is_safe_to_encode_str_def)
next
  assume a: "import_llama_index env = Inl ImportError \<and> unclassified env obj"
  then have s: "is_safe_to_encode_str env obj = Inr True"
    by (simp add: is_safe_to_encode_str_def)
  with a show "CallStr \<in> set (snd (TraceJSONEncoder_default env obj))"
    by (simp add: default_unclassified_calls)
  from a s show "fst (TraceJSONEncoder_default env obj) =
          (case str_method obj of Inl e \<Rightarrow> Inl e | Inr s \<Rightarrow> Inr (PyStr s))"
    by (simp add: default_unclassified)
qed

theorem default_unsafe_str_witness:
  "unclassified
      \<lparr>import_langchain = Inl ImportError, langchain_before_0_3 = Inr False,
       import_langchain_core_pydantic_v1 = Inl ImportError,
       import_pydantic = Inl ImportError, pydantic_v2 = Inr False,
       import_llama_index = Inr ()\<rparr>
      \<lparr>type_name = ''StreamingResponse'', is_langchain_model = Inr False,
       is_pydantic_model = Inr False, dict_method = Inl AttributeError,
       model_dump_method = Inl AttributeError, is_dataclass = Inr True,
       asdict = Inl TypeError, is_streaming_response = Inr True,
       str_method = Inr ''consumed''\<rparr>
   \<and> fst (TraceJSONEncoder_default
      \<lparr>import_langchain = Inl ImportError, langchain_before_0_3 = Inr False,
       import_langchain_core_pydantic_v1 = Inl ImportError,
       import_pydantic = Inl ImportError, pydantic_v2 = Inr False,
       import_llama_index = Inr ()\<rparr>
      \<lparr>type_name = ''StreamingResponse'', is_langchain_model = Inr False,
       is_pydantic_model = Inr False, dict_method = Inl AttributeError,
       model_dump_method = Inl AttributeError, is_dataclass = Inr True,
       asdict = Inl TypeError, is_streaming_response = Inr True,
       str_method = Inr ''consumed''\<rparr>)
     = Inr (PyType ''StreamingResponse'')
   \<and> CallStr \<notin> set (snd (TraceJSONEncoder_default
      \<lparr>import_langchain = Inl ImportError, langchain_before_0_3 = Inr False,
       import_langchain_core_pydantic_v1 = Inl ImportError,
       import_pydantic = Inl ImportError, pydantic_v2 = Inr False,
       import_llama_index = Inr ()\<rparr>
      \<lparr>type_name = ''StreamingResponse'', is_langchain_model = Inr False,
       is_pydantic_model = Inr False, dict_method = Inl AttributeError,
       model_dump_method = Inl AttributeError, is_dataclass = Inr True,
       asdict = Inl TypeError, is_streaming_response = Inr True,
       str_method = Inr ''consumed''\<rparr>))
   \<and> fst (TraceJSONEncoder_default
      \<lparr>import_langchain = Inl ImportError, langchain_before_0_3 = Inr False,
       import_langchain_core_pydantic_v1 = Inl ImportError,
       import_pydantic = Inl ImportError, pydantic_v2 = Inr False,
       import_llama_index = Inl ImportError\<rparr>
      \<lparr>type_name = ''StreamingResponse'', is_langchain_model = Inr False,
       is_pydantic_model = Inr False, dict_method = Inl AttributeError,
       model_dump_method = Inl AttributeError, is_dataclass = Inr True,
       asdict = Inl TypeError, is_streaming_response = Inr True,
       str_method = Inr ''consumed''\<rparr>)
     = Inr (PyStr ''consumed'')"
proof -
  let ?env = "\<lparr>import_langchain = Inl ImportError, langchain_before_0_3 = Inr False,
       import_langchain_core_pydantic_v1 = Inl ImportError,
       import_pydantic = Inl ImportError, pydantic_v2 = Inr False,
       import_llama_index = Inr ()\<rparr>"
  let ?bare = "\<lparr>import_langchain = Inl ImportError, langchain_before_0_3 = Inr False,
       import_langchain_core_pydantic_v1 = Inl ImportError,
       import_pydantic = Inl ImportError, pydantic_v2 = Inr False,
       import_llama_index = Inl ImportError\<rparr>"
  let ?obj = "\<lparr>type_name = ''StreamingResponse'', is_langchain_model = Inr False,
       is_pydantic_model = Inr False, dict_method = Inl AttributeError,
       model_dump_method = Inl AttributeError, is_dataclass = Inr True,
       asdict = Inl TypeError, is_streaming_response = Inr True,
       str_method = Inr ''consumed''\<rparr>"
  have u: "unclassified ?env ?obj" and u': "unclassified ?bare ?obj"
    by (simp_all add: unclassified_def langchain_rule_def pydantic_rule_def
        dataclass_rule_def caught_def attempt_def)
  have l: "import_llama_index ?env = Inr () \<and> is_streaming_response ?obj = Inr True"
    and l': "import_llama_index ?bare = Inl ImportError"
    by simp_all
  from default_unsafe_str [of ?env ?obj] l u
  have 1: "fst (TraceJSONEncoder_default ?env ?obj) = Inr (PyType (type_name ?obj))"
    and 2: "CallStr \<notin> set (snd (TraceJSONEncoder_default ?env ?obj))"
    by blast+
  from default_unsafe_str [of ?bare ?obj] l' u'
  have "fst (TraceJSONEncoder_default ?bare ?obj) =
      (case str_method ?obj of Inl e \<Rightarrow> Inl e | Inr s \<Rightarrow> Inr (PyStr s))"
    by blast
  then have 3: "fst (TraceJSONEncoder_default ?bare ?obj) = Inr (PyStr ''consumed'')"
    by simp
  from 1 have t: "fst (TraceJSONEncoder_default ?env ?obj) = Inr (PyType ''StreamingResponse'')"
    by simp
  from u t 2 3 show ?thesis by blast
qed

end
